theory Spec2Isabelle
  imports Main "HOL-Library.AList"
begin

section \<open>Python values used by GraphExample.py\<close>

text \<open>
  The source is Python 2. Vertices are unbounded integers (\<open>int\<close>), an edge is a pair of
  integers, a Python list is a HOL list. A Python \<open>dict\<close> is an association list with
  distinct keys: \<open>map_of d k\<close> is the lookup \<open>d[k]\<close> (\<open>None\<close> where Python raises
  KeyError), \<open>AList.update k v d\<close> is the assignment \<open>d[k] = v\<close> and \<open>AList.delete k d\<close>
  is \<open>del d[k]\<close>. Python 2 leaves the iteration order of a dict unspecified; the
  association list iterates in order of first insertion, and no statement below depends
  on which order it is unless it says so.
\<close>

datatype error = KeyError | ValueError | IOError

type_synonym edge = "int \<times> int"

type_synonym 'v dict = "(int \<times> 'v) list"

text \<open>The outcome of a method call: it returns a value or an exception leaves it.\<close>

datatype 'a outcome = Returns 'a | Raises error

text \<open>\<open>v in xx\<close> for a pair \<open>xx\<close>.\<close>

definition in_pair :: "int \<Rightarrow> edge \<Rightarrow> bool" where
  "in_pair v xx = (v = fst xx \<or> v = snd xx)"

text \<open>\<open>(min(x), max(x))\<close> for a pair \<open>x\<close>.\<close>

definition norm_edge :: "edge \<Rightarrow> edge" where
  "norm_edge x = (min (fst x) (snd x), max (fst x) (snd x))"

text \<open>\<open>dict(pairs)\<close>: later pairs overwrite earlier ones with the same key.\<close>

definition dict_of :: "(int \<times> 'v) list \<Rightarrow> 'v dict" where
  "dict_of ps = foldl (\<lambda>d p. AList.update (fst p) (snd p) d) [] ps"

text \<open>\<open>range(n)\<close> of Python 2: the list \<open>0, ..., n - 1\<close>, empty when \<open>n \<le> 0\<close>.\<close>

definition range_list :: "int \<Rightarrow> int list" where
  "range_list n = [0 .. n - 1]"

section \<open>Graph1: a list of vertices and a list of edges\<close>

record Graph1 =
  vertices :: "int list"
  edges :: "edge list"

definition Graph1_init :: "int list \<Rightarrow> edge list \<Rightarrow> Graph1" where
  "Graph1_init vs es = \<lparr>vertices = vs, edges = map norm_edge es\<rparr>"

definition Graph1_hasVertex :: "Graph1 \<Rightarrow> int \<Rightarrow> bool" where
  "Graph1_hasVertex g a = (a \<in> set (vertices g))"

definition Graph1_hasEdge :: "Graph1 \<Rightarrow> int \<Rightarrow> int \<Rightarrow> bool" where
  "Graph1_hasEdge g a b = ((min a b, max a b) \<in> set (edges g))"

definition Graph1_addVertex :: "int \<Rightarrow> Graph1 \<Rightarrow> Graph1" where
  "Graph1_addVertex a g = g\<lparr>vertices := vertices g @ [a]\<rparr>"

definition Graph1_addVertexCleanly :: "int \<Rightarrow> Graph1 \<Rightarrow> bool \<times> Graph1" where
  "Graph1_addVertexCleanly a g =
     (if a \<notin> set (vertices g) then (True, g\<lparr>vertices := vertices g @ [a]\<rparr>)
      else (False, g))"

text \<open>
  \<open>self.vertices.remove(a)\<close> raises ValueError when \<open>a\<close> is absent, which the method
  catches before it has changed anything; otherwise the first occurrence goes, and the
  edges are filtered.
\<close>

definition Graph1_deleteVertex :: "int \<Rightarrow> Graph1 \<Rightarrow> Graph1" where
  "Graph1_deleteVertex a g =
     (if a \<in> set (vertices g)
      then g\<lparr>vertices := remove1 a (vertices g),
             edges := filter (\<lambda>ee. \<not> in_pair a ee) (edges g)\<rparr>
      else g)"

definition Graph1_addEdge :: "int \<Rightarrow> int \<Rightarrow> Graph1 \<Rightarrow> bool \<times> Graph1" where
  "Graph1_addEdge a b g =
     (if \<not> Graph1_hasEdge g a b then
        (if a \<in> set (vertices g) \<and> b \<in> set (vertices g) then
           (True, g\<lparr>edges := edges g @ [(min a b, max a b)]\<rparr>)
         else if a \<in> set (vertices g) then
           (let g1 = Graph1_addVertex b g
            in (True, g1\<lparr>edges := edges g1 @ [(min a b, max a b)]\<rparr>))
         else if b \<in> set (vertices g) then
           (let g1 = Graph1_addVertex a g
            in (True, g1\<lparr>edges := edges g1 @ [(min a b, max a b)]\<rparr>))
         else
           (let g1 = Graph1_addVertex a g; g2 = Graph1_addVertex b g1
            in (True, g2\<lparr>edges := edges g2 @ [(min a b, max a b)]\<rparr>)))
      else (False, g))"

definition Graph1_addEdges :: "edge list \<Rightarrow> Graph1 \<Rightarrow> Graph1" where
  "Graph1_addEdges newEdges g = foldl (\<lambda>h ee. snd (Graph1_addEdge (fst ee) (snd ee) h)) g newEdges"

definition Graph1_deleteEdge :: "int \<Rightarrow> int \<Rightarrow> Graph1 \<Rightarrow> Graph1" where
  "Graph1_deleteEdge a b g =
     (let aa = min a b; bb = max a b
      in if (aa, bb) \<in> set (edges g) then g\<lparr>edges := remove1 (aa, bb) (edges g)\<rparr> else g)"

definition Graph1_degree :: "Graph1 \<Rightarrow> int \<Rightarrow> nat" where
  "Graph1_degree g v = length (filter (\<lambda>xx. in_pair v xx) (edges g))"

definition Graph1_degreeFn :: "Graph1 \<Rightarrow> nat dict" where
  "Graph1_degreeFn g = dict_of (map (\<lambda>v. (v, Graph1_degree g v)) (vertices g))"

section \<open>Graph2: an adjacency dict\<close>

record Graph2 =
  graph :: "int list dict"

text \<open>\<open>d[k].append(x)\<close>: KeyError when \<open>k\<close> is not a key.\<close>

definition dict_append :: "int \<Rightarrow> int \<Rightarrow> int list dict \<Rightarrow> error + int list dict" where
  "dict_append k x d =
     (case map_of d k of None \<Rightarrow> Inl KeyError
      | Some l \<Rightarrow> Inr (AList.update k (l @ [x]) d))"

fun init_edges :: "edge list \<Rightarrow> int list dict \<Rightarrow> error + int list dict" where
  "init_edges [] d = Inr d"
| "init_edges (ee # es) d =
     (case dict_append (fst ee) (snd ee) d of Inl e \<Rightarrow> Inl e
      | Inr d1 \<Rightarrow>
         (case dict_append (snd ee) (fst ee) d1 of Inl e \<Rightarrow> Inl e
          | Inr d2 \<Rightarrow> init_edges es d2))"

definition Graph2_init :: "int list \<Rightarrow> edge list \<Rightarrow> error + Graph2" where
  "Graph2_init vs es =
     (case init_edges es (dict_of (map (\<lambda>v. (v, [])) vs)) of Inl e \<Rightarrow> Inl e
      | Inr d \<Rightarrow> Inr \<lparr>graph = d\<rparr>)"

definition Graph2_vertices :: "Graph2 \<Rightarrow> int list" where
  "Graph2_vertices g = map fst (graph g)"

definition Graph2_edges :: "Graph2 \<Rightarrow> edge list" where
  "Graph2_edges g =
     concat (map (\<lambda>u. case map_of (graph g) u of None \<Rightarrow> []
                       | Some ns \<Rightarrow> map (\<lambda>v. (u, v)) (filter (\<lambda>v. u < v) ns))
                 (map fst (graph g)))"

definition Graph2_hasVertex :: "Graph2 \<Rightarrow> int \<Rightarrow> bool" where
  "Graph2_hasVertex g a = (a \<in> set (map fst (graph g)))"

definition Graph2_hasEdge :: "Graph2 \<Rightarrow> int \<Rightarrow> int \<Rightarrow> bool" where
  "Graph2_hasEdge g a b =
     (case map_of (graph g) a of None \<Rightarrow> False | Some ns \<Rightarrow> b \<in> set ns)"

definition Graph2_addVertex :: "int \<Rightarrow> Graph2 \<Rightarrow> Graph2" where
  "Graph2_addVertex a g = g\<lparr>graph := AList.update a [] (graph g)\<rparr>"

definition Graph2_addVertexCleanly :: "int \<Rightarrow> Graph2 \<Rightarrow> bool \<times> Graph2" where
  "Graph2_addVertexCleanly a g =
     (if \<not> Graph2_hasVertex g a then (True, g\<lparr>graph := AList.update a [] (graph g)\<rparr>)
      else (False, g))"

text \<open>
  The loop of \<open>deleteVertex\<close>: \<open>self.graph[xx].remove(a)\<close> for each \<open>xx\<close> of the copied
  neighbour list. It stops at the first exception, with the dict as it is then:
  KeyError when \<open>xx\<close> is no key, ValueError when \<open>a\<close> is not in the list of \<open>xx\<close>.
\<close>

fun strip_neighbours :: "int \<Rightarrow> int list \<Rightarrow> int list dict \<Rightarrow> error option \<times> int list dict" where
  "strip_neighbours a [] d = (None, d)"
| "strip_neighbours a (xx # xs) d =
     (case map_of d xx of None \<Rightarrow> (Some KeyError, d)
      | Some l \<Rightarrow>
         if a \<in> set l then strip_neighbours a xs (AList.update xx (remove1 a l) d)
         else (Some ValueError, d))"

text \<open>
  \<open>deleteVertex\<close> catches KeyError wherever it arises in its body (the lookup of \<open>a\<close>
  or the loop); a ValueError from the loop leaves the method.
\<close>

definition Graph2_deleteVertex :: "int \<Rightarrow> Graph2 \<Rightarrow> unit outcome \<times> Graph2" where
  "Graph2_deleteVertex a g =
     (case map_of (graph g) a of None \<Rightarrow> (Returns (), g)
      | Some otherVerts \<Rightarrow>
         (case strip_neighbours a otherVerts (AList.delete a (graph g)) of
            (None, d) \<Rightarrow> (Returns (), g\<lparr>graph := d\<rparr>)
          | (Some KeyError, d) \<Rightarrow> (Returns (), g\<lparr>graph := d\<rparr>)
          | (Some e, d) \<Rightarrow> (Raises e, g\<lparr>graph := d\<rparr>)))"

text \<open>
  \<open>d[k].append(x)\<close> at a key \<open>k\<close> that the caller has just found in \<open>d\<close> (the
  branches of \<open>addEdge\<close> test \<open>a in self.graph\<close> and \<open>b in self.graph\<close> first, so the
  lookup cannot raise there; the absent case is never taken).
\<close>

definition append_at :: "int \<Rightarrow> int \<Rightarrow> int list dict \<Rightarrow> int list dict" where
  "append_at k x d =
     (case map_of d k of None \<Rightarrow> d | Some l \<Rightarrow> AList.update k (l @ [x]) d)"

definition Graph2_addEdge :: "int \<Rightarrow> int \<Rightarrow> Graph2 \<Rightarrow> bool \<times> Graph2" where
  "Graph2_addEdge a b g =
     (if \<not> Graph2_hasEdge g a b then
        (if Graph2_hasVertex g a \<and> Graph2_hasVertex g b then
           (True, g\<lparr>graph := append_at b a (append_at a b (graph g))\<rparr>)
         else if Graph2_hasVertex g a then
           (True, g\<lparr>graph := AList.update b [a] (append_at a b (graph g))\<rparr>)
         else if Graph2_hasVertex g b then
           (True, g\<lparr>graph := append_at b a (AList.update a [b] (graph g))\<rparr>)
         else
           (True, g\<lparr>graph := AList.update b [a] (AList.update a [b] (graph g))\<rparr>))
      else (False, g))"

definition Graph2_addEdges :: "edge list \<Rightarrow> Graph2 \<Rightarrow> Graph2" where
  "Graph2_addEdges newEdges g = foldl (\<lambda>h ee. snd (Graph2_addEdge (fst ee) (snd ee) h)) g newEdges"

text \<open>
  \<open>deleteEdge\<close> catches ValueError only. The lookup \<open>self.graph[a]\<close> raises KeyError
  before anything has changed; the lookup \<open>self.graph[b]\<close> raises it after the first
  removal.
\<close>

definition Graph2_deleteEdge :: "int \<Rightarrow> int \<Rightarrow> Graph2 \<Rightarrow> unit outcome \<times> Graph2" where
  "Graph2_deleteEdge a b g =
     (case map_of (graph g) a of None \<Rightarrow> (Raises KeyError, g)
      | Some la \<Rightarrow>
         if b \<notin> set la then (Returns (), g)
         else
           (let d1 = AList.update a (remove1 b la) (graph g)
            in case map_of d1 b of None \<Rightarrow> (Raises KeyError, g\<lparr>graph := d1\<rparr>)
               | Some lb \<Rightarrow>
                  if a \<notin> set lb then (Returns (), g\<lparr>graph := d1\<rparr>)
                  else (Returns (), g\<lparr>graph := AList.update b (remove1 a lb) d1\<rparr>)))"

definition Graph2_degree :: "Graph2 \<Rightarrow> int \<Rightarrow> error + nat" where
  "Graph2_degree g v =
     (case map_of (graph g) v of None \<Rightarrow> Inl KeyError | Some ns \<Rightarrow> Inr (length ns))"

text \<open>
  \<open>degreeFn\<close> evaluates \<open>self.degree(v)\<close> for each key in turn; \<open>degree_pairs\<close> is its
  list comprehension.
\<close>

fun degree_pairs :: "Graph2 \<Rightarrow> int list \<Rightarrow> error + (int \<times> nat) list" where
  "degree_pairs g [] = Inr []"
| "degree_pairs g (v # vs) =
     (case Graph2_degree g v of Inl e \<Rightarrow> Inl e
      | Inr n \<Rightarrow>
         (case degree_pairs g vs of Inl e \<Rightarrow> Inl e
          | Inr ps \<Rightarrow> Inr ((v, n) # ps)))"

definition Graph2_degreeFn :: "Graph2 \<Rightarrow> error + nat dict" where
  "Graph2_degreeFn g =
     (case degree_pairs g (map fst (graph g)) of Inl e \<Rightarrow> Inl e
      | Inr ps \<Rightarrow> Inr (dict_of ps))"

section \<open>Connectivity\<close>

text \<open>
  Both algorithms loop \<open>while change\<close>; nothing in the code bounds the number of
  passes, and \<open>find\<close> recurses along the parent links for as long as they go. The
  loops are therefore partial functions into \<open>option\<close>: \<open>None\<close> is a run that never
  returns, \<open>Some (Inl e)\<close> a run that raises \<open>e\<close> (a lookup \<open>buckets[v]\<close> of a vertex
  that is no key), \<open>Some (Inr r)\<close> a run that returns \<open>r\<close>.
\<close>

subsection \<open>Graph1.isConnected1 and Graph1.isConnected2\<close>

text \<open>
  \<open>relabel tmp e0 keys buckets\<close> is the inner loop \<open>for vv in buckets\<close> of
  \<open>isConnected1\<close>, where \<open>e0\<close> is \<open>ee[0]\<close>: the label \<open>buckets[ee[0]]\<close> is read
  again at each assignment.
\<close>

fun relabel :: "int \<Rightarrow> int \<Rightarrow> int list \<Rightarrow> int dict \<Rightarrow> error + int dict" where
  "relabel tmp e0 [] buckets = Inr buckets"
| "relabel tmp e0 (vv # vs) buckets =
     (case map_of buckets vv of None \<Rightarrow> Inl KeyError
      | Some l \<Rightarrow>
         if l = tmp then
           (case map_of buckets e0 of None \<Rightarrow> Inl KeyError
            | Some l0 \<Rightarrow> relabel tmp e0 vs (AList.update vv l0 buckets))
         else relabel tmp e0 vs buckets)"

fun scan_edges1 :: "edge list \<Rightarrow> bool \<times> int dict \<Rightarrow> error + bool \<times> int dict" where
  "scan_edges1 [] st = Inr st"
| "scan_edges1 (ee # es) (change, buckets) =
     (case map_of buckets (fst ee) of None \<Rightarrow> Inl KeyError
      | Some l0 \<Rightarrow>
         (case map_of buckets (snd ee) of None \<Rightarrow> Inl KeyError
          | Some tmp \<Rightarrow>
             if l0 \<noteq> tmp then
               (case relabel tmp (fst ee) (map fst buckets) buckets of Inl e \<Rightarrow> Inl e
                | Inr b' \<Rightarrow> scan_edges1 es (True, b'))
             else scan_edges1 es (change, buckets)))"

partial_function (option) while_edges1 :: "edge list \<Rightarrow> int dict \<Rightarrow> (error + int dict) option" where
  "while_edges1 es buckets =
     (case scan_edges1 es (False, buckets) of Inl e \<Rightarrow> Some (Inl e)
      | Inr (change, b') \<Rightarrow> if change then while_edges1 es b' else Some (Inr b'))"

declare while_edges1.simps [code]

definition one_bucket :: "int dict \<Rightarrow> bool" where
  "one_bucket buckets = (length (remdups (map snd buckets)) = 1)"

definition Graph1_isConnected1 :: "Graph1 \<Rightarrow> (error + bool) option" where
  "Graph1_isConnected1 g =
     (case while_edges1 (edges g) (dict_of (map (\<lambda>v. (v, v)) (vertices g))) of
        None \<Rightarrow> None
      | Some (Inl e) \<Rightarrow> Some (Inl e)
      | Some (Inr buckets) \<Rightarrow> Some (Inr (one_bucket buckets)))"

partial_function (option) find_root :: "int dict \<Rightarrow> int \<Rightarrow> (error + int \<times> int dict) option" where
  "find_root buckets v =
     (case map_of buckets v of None \<Rightarrow> Some (Inl KeyError)
      | Some ff \<Rightarrow>
         if ff = v then Some (Inr (v, buckets))
         else Option.bind (find_root buckets ff)
                (\<lambda>r. case r of Inl e \<Rightarrow> Some (Inl e)
                      | Inr (f2, b') \<Rightarrow> Some (Inr (f2, AList.update v f2 b'))))"

declare find_root.simps [code]

text \<open>
  \<open>find_root\<close> is the local function \<open>find\<close> of \<open>isConnected2\<close>; it returns the root
  and the dict after path compression. \<open>union_step x y\<close> is the body of the loop for the
  pair \<open>(x, y)\<close>, on the state \<open>(change, valuesCnt, buckets)\<close>.
\<close>

definition union_step :: "int \<Rightarrow> int \<Rightarrow> bool \<times> int \<times> int dict \<Rightarrow> (error + bool \<times> int \<times> int dict) option" where
  "union_step x y st =
     (case st of (change, valuesCnt, buckets) \<Rightarrow>
        Option.bind (find_root buckets x)
          (\<lambda>r1. case r1 of Inl e \<Rightarrow> Some (Inl e)
             | Inr (ff, b1) \<Rightarrow>
                Option.bind (find_root b1 y)
                  (\<lambda>r2. case r2 of Inl e \<Rightarrow> Some (Inl e)
                     | Inr (gg, b2) \<Rightarrow>
                        if ff \<noteq> gg then Some (Inr (True, valuesCnt - 1, AList.update gg ff b2))
                        else Some (Inr (change, valuesCnt, b2)))))"

fun scan_pairs2 :: "edge list \<Rightarrow> bool \<times> int \<times> int dict \<Rightarrow> (error + bool \<times> int \<times> int dict) option" where
  "scan_pairs2 [] st = Some (Inr st)"
| "scan_pairs2 (ee # es) st =
     Option.bind (union_step (fst ee) (snd ee) st)
       (\<lambda>r. case r of Inl e \<Rightarrow> Some (Inl e) | Inr st' \<Rightarrow> scan_pairs2 es st')"

partial_function (option) while_pairs2 :: "edge list \<Rightarrow> int \<Rightarrow> int dict \<Rightarrow> (error + bool) option" where
  "while_pairs2 es valuesCnt buckets =
     Option.bind (scan_pairs2 es (False, valuesCnt, buckets))
       (\<lambda>r. case r of Inl e \<Rightarrow> Some (Inl e)
          | Inr (change, cnt', b') \<Rightarrow>
             if change then while_pairs2 es cnt' b' else Some (Inr (cnt' = 1)))"

declare while_pairs2.simps [code]

definition Graph1_isConnected2 :: "Graph1 \<Rightarrow> (error + bool) option" where
  "Graph1_isConnected2 g =
     while_pairs2 (edges g) (int (length (vertices g)))
       (dict_of (map (\<lambda>v. (v, v)) (vertices g)))"

subsection \<open>Graph2.isConnected1 and Graph2.isConnected2\<close>

fun newComp_of :: "int dict \<Rightarrow> int \<Rightarrow> int list \<Rightarrow> error + int list" where
  "newComp_of buckets u [] = Inr []"
| "newComp_of buckets u (v # vs) =
     (case map_of buckets u of None \<Rightarrow> Inl KeyError
      | Some lu \<Rightarrow>
         (case map_of buckets v of None \<Rightarrow> Inl KeyError
          | Some lv \<Rightarrow>
             (case newComp_of buckets u vs of Inl e \<Rightarrow> Inl e
              | Inr r \<Rightarrow> Inr (if lu \<noteq> lv then lv # r else r))))"

fun relabel_in :: "int list \<Rightarrow> int \<Rightarrow> int list \<Rightarrow> int dict \<Rightarrow> error + int dict" where
  "relabel_in newComp u [] buckets = Inr buckets"
| "relabel_in newComp u (vv # vs) buckets =
     (case map_of buckets vv of None \<Rightarrow> Inl KeyError
      | Some l \<Rightarrow>
         if l \<in> set newComp then
           (case map_of buckets u of None \<Rightarrow> Inl KeyError
            | Some lu \<Rightarrow> relabel_in newComp u vs (AList.update vv lu buckets))
         else relabel_in newComp u vs buckets)"

fun scan_verts1 :: "int list dict \<Rightarrow> int list \<Rightarrow> bool \<times> int dict \<Rightarrow> error + bool \<times> int dict" where
  "scan_verts1 gr [] st = Inr st"
| "scan_verts1 gr (u # us) (change, buckets) =
     (case map_of gr u of None \<Rightarrow> Inl KeyError
      | Some ns \<Rightarrow>
         (case newComp_of buckets u ns of Inl e \<Rightarrow> Inl e
          | Inr newComp \<Rightarrow>
             if length newComp \<noteq> 0 then
               (case relabel_in newComp u (map fst buckets) buckets of Inl e \<Rightarrow> Inl e
                | Inr b' \<Rightarrow> scan_verts1 gr us (True, b'))
             else scan_verts1 gr us (change, buckets)))"

partial_function (option) while_verts1 :: "int list dict \<Rightarrow> int dict \<Rightarrow> (error + int dict) option" where
  "while_verts1 gr buckets =
     (case scan_verts1 gr (map fst gr) (False, buckets) of Inl e \<Rightarrow> Some (Inl e)
      | Inr (change, b') \<Rightarrow> if change then while_verts1 gr b' else Some (Inr b'))"

declare while_verts1.simps [code]

definition Graph2_isConnected1 :: "Graph2 \<Rightarrow> (error + bool) option" where
  "Graph2_isConnected1 g =
     (case while_verts1 (graph g) (dict_of (map (\<lambda>v. (v, v)) (map fst (graph g)))) of
        None \<Rightarrow> None
      | Some (Inl e) \<Rightarrow> Some (Inl e)
      | Some (Inr buckets) \<Rightarrow> Some (Inr (one_bucket buckets)))"

text \<open>The pairs (u, v) in the order the nested loops of Graph2.isConnected2 visit them.\<close>

definition adjacency_pairs :: "int list dict \<Rightarrow> edge list" where
  "adjacency_pairs gr =
     concat (map (\<lambda>u. case map_of gr u of None \<Rightarrow> [] | Some ns \<Rightarrow> map (\<lambda>v. (u, v)) ns)
                 (map fst gr))"

definition Graph2_isConnected2 :: "Graph2 \<Rightarrow> (error + bool) option" where
  "Graph2_isConnected2 g =
     while_pairs2 (adjacency_pairs (graph g)) (int (length (graph g)))
       (dict_of (map (\<lambda>v. (v, v)) (map fst (graph g))))"

section \<open>GraphObject: the factory methods\<close>



definition cycle :: "(int list \<Rightarrow> edge list \<Rightarrow> 'g) \<Rightarrow> int \<Rightarrow> 'g" where
  "cycle cls len =
     (let verts = range_list len;
          es = map (\<lambda>i. (i, i + 1)) (range_list (len - 1)) @ [(0, len - 1)]
      in cls verts es)"

subsection \<open>fromFile\<close>

text \<open>
  The file is the list of its lines, or \<open>None\<close> when opening or reading it raises
  IOError. \<open>strip\<close> is \<open>str.strip()\<close>, \<open>split_on c\<close> is \<open>str.split(c)\<close> for a separator
  of one character (every occurrence separates, so two adjacent separators give an
  empty piece), and \<open>int_of_str\<close> is the builtin \<open>int(s)\<close> on a string: optional
  surrounding whitespace, an optional sign, then one or more decimal digits; \<open>None\<close>
  is its ValueError.
\<close>

definition is_space :: "char \<Rightarrow> bool" where
  "is_space c = (c \<in> set [CHR '' '', CHR 0x09, CHR 0x0A, CHR 0x0B, CHR 0x0C, CHR 0x0D])"

definition strip :: "string \<Rightarrow> string" where
  "strip s = rev (dropWhile is_space (rev (dropWhile is_space s)))"

fun split_acc :: "char \<Rightarrow> string \<Rightarrow> string \<Rightarrow> string list" where
  "split_acc c cur [] = [rev cur]"
| "split_acc c cur (x # xs) =
     (if x = c then rev cur # split_acc c [] xs else split_acc c (x # cur) xs)"

definition split_on :: "char \<Rightarrow> string \<Rightarrow> string list" where
  "split_on c s = split_acc c [] s"

definition digit_of :: "char \<Rightarrow> nat option" where
  "digit_of c =
     (let k = (of_char c :: nat) in if 48 \<le> k \<and> k \<le> 57 then Some (k - 48) else None)"

fun digits_acc :: "nat \<Rightarrow> string \<Rightarrow> nat option" where
  "digits_acc n [] = Some n"
| "digits_acc n (c # cs) =
     (case digit_of c of None \<Rightarrow> None | Some k \<Rightarrow> digits_acc (10 * n + k) cs)"

definition nat_of_digits :: "string \<Rightarrow> nat option" where
  "nat_of_digits s = (if s = [] then None else digits_acc 0 s)"

definition int_of_str :: "string \<Rightarrow> int option" where
  "int_of_str s =
     (case strip s of [] \<Rightarrow> None
      | c # cs \<Rightarrow>
         if c = CHR ''-'' then map_option (\<lambda>n. - int n) (nat_of_digits cs)
         else if c = CHR ''+'' then map_option int (nat_of_digits cs)
         else map_option int (nat_of_digits (c # cs)))"

text \<open>\<open>verts.update([a, b])\<close> on a Python set, kept as a list without repetition.\<close>

definition set_add :: "int \<Rightarrow> int list \<Rightarrow> int list" where
  "set_add a verts = (if a \<in> set verts then verts else verts @ [a])"

text \<open>
  The loop over the lines, on the state \<open>(verts, es)\<close>. A line of two pieces whose
  first or second piece \<open>int\<close> rejects raises ValueError, which \<open>fromFile\<close> does not catch.
\<close>

fun read_lines :: "string list \<Rightarrow> int list \<times> edge list \<Rightarrow> error + int list \<times> edge list" where
  "read_lines [] st = Inr st"
| "read_lines (ll # rest) (verts, es) =
     (let ss = strip ll; ls = split_on CHR '' '' ss
      in if length ls = 2 then
           (case int_of_str (ls ! 0) of None \<Rightarrow> Inl ValueError
            | Some a \<Rightarrow>
               (case int_of_str (ls ! 1) of None \<Rightarrow> Inl ValueError
                | Some b \<Rightarrow> read_lines rest (set_add b (set_add a verts), es @ [(a, b)])))
         else read_lines rest (verts, es))"

definition fromFile :: "(int list \<Rightarrow> edge list \<Rightarrow> 'g) \<Rightarrow> string list option \<Rightarrow> error + 'g" where
  "fromFile cls file =
     (case file of None \<Rightarrow> Inr (cls [] [])
      | Some lines \<Rightarrow>
         (case read_lines lines ([], []) of Inl e \<Rightarrow> Inl e
          | Inr (verts, es) \<Rightarrow> Inr (cls verts es)))"

text \<open>
  The words of the statements about \<open>fromFile\<close>. The pieces of a line are what
  \<open>ll.strip().split(" ")\<close> gives; an edge line is a line of exactly two pieces; it is
  readable when \<open>int\<close> accepts both pieces, and \<open>line_edge\<close> is then the pair it
  contributes. \<open>add_ends verts es\<close> adds the endpoints of \<open>es\<close> to \<open>verts\<close> in turn.
\<close>

definition pieces :: "string \<Rightarrow> string list" where
  "pieces ll = split_on CHR '' '' (strip ll)"

definition edge_line :: "string \<Rightarrow> bool" where
  "edge_line ll = (length (pieces ll) = 2)"

definition readable_line :: "string \<Rightarrow> bool" where
  "readable_line ll =
     (edge_line ll \<longrightarrow> int_of_str (pieces ll ! 0) \<noteq> None \<and> int_of_str (pieces ll ! 1) \<noteq> None)"

definition line_edge :: "string \<Rightarrow> edge" where
  "line_edge ll = (the (int_of_str (pieces ll ! 0)), the (int_of_str (pieces ll ! 1)))"

definition add_ends :: "int list \<Rightarrow> edge list \<Rightarrow> int list" where
  "add_ends verts es = foldl (\<lambda>vs e. set_add (snd e) (set_add (fst e) vs)) verts es"

subsection \<open>collapseEdge\<close>

text \<open>The three comprehensions that build the edges of the minor.\<close>

definition collapse_edges :: "edge list \<Rightarrow> int \<Rightarrow> int \<Rightarrow> edge list" where
  "collapse_edges useEdges a b =
     filter (\<lambda>(u, v). u \<noteq> b \<and> v \<noteq> b) useEdges
     @ map (\<lambda>(u, v). (u, a)) (filter (\<lambda>(u, v). u \<noteq> a \<and> v = b) useEdges)
     @ map (\<lambda>(u, v). (a, v)) (filter (\<lambda>(u, v). u = b \<and> a \<noteq> v) useEdges)"

text \<open>
  On a Graph1, \<open>g1.vertices\<close> is the list object of \<open>g1\<close> itself, so \<open>verts.remove(b)\<close>
  changes \<open>g1\<close> too: the result is the pair of the new graph and \<open>g1\<close> as the call leaves
  it. \<open>verts.remove(b)\<close> raises ValueError when \<open>b\<close> is not in the list. Without the edge
  the method returns \<open>g1\<close> itself.
\<close>

definition Graph1_collapseEdge :: "Graph1 \<Rightarrow> int \<Rightarrow> int \<Rightarrow> error + Graph1 \<times> Graph1" where
  "Graph1_collapseEdge g1 a b =
     (if Graph1_hasEdge g1 a b then
        (if b \<in> set (vertices g1) then
           (let verts = remove1 b (vertices g1);
                useEdges = edges g1
            in Inr (Graph1_init verts (collapse_edges useEdges a b), g1\<lparr>vertices := verts\<rparr>))
         else Inl ValueError)
      else Inr (g1, g1))"

text \<open>
  On a Graph2, \<open>g1.vertices\<close> is a fresh list of the keys and \<open>g1.edges\<close> a fresh list, so
  \<open>g1\<close> stays as it is.
\<close>

definition Graph2_collapseEdge :: "Graph2 \<Rightarrow> int \<Rightarrow> int \<Rightarrow> error + Graph2" where
  "Graph2_collapseEdge g1 a b =
     (if Graph2_hasEdge g1 a b then
        (if b \<in> set (Graph2_vertices g1) then
           (let verts = remove1 b (Graph2_vertices g1);
                useEdges = Graph2_edges g1
            in Graph2_init verts (collapse_edges useEdges a b))
         else Inl ValueError)
      else Inr g1)"

section \<open>The predicates of the statements\<close>

text \<open>
  Every stored edge joins two vertices of the graph: the edges of a Graph1 are its edge
  list, those of a Graph2 its \<open>edges\<close> property. \<open>endpoints_among vs es\<close> says the same of
  the two lists a constructor is given.
\<close>

definition Graph1_inv :: "Graph1 \<Rightarrow> bool" where
  "Graph1_inv g =
     list_all (\<lambda>ee. Graph1_hasVertex g (fst ee) \<and> Graph1_hasVertex g (snd ee)) (edges g)"


definition endpoints_among :: "int list \<Rightarrow> edge list \<Rightarrow> bool" where
  "endpoints_among vs es = list_all (\<lambda>ee. fst ee \<in> set vs \<and> snd ee \<in> set vs) es"

text \<open>
  \<open>nbrs d u\<close> is the neighbour list \<open>d[u]\<close>, and the empty list when \<open>u\<close> is no key: a
  device of the statements below, not a method of the source.
\<close>

definition nbrs :: "int list dict \<Rightarrow> int \<Rightarrow> int list" where
  "nbrs d u = (case map_of d u of None \<Rightarrow> [] | Some ns \<Rightarrow> ns)"

text \<open>
  The adjacency lists of a Graph2 are symmetric when, for each vertex \<open>u\<close> and each \<open>v\<close>
  in its list, \<open>v\<close> occurs in the list of \<open>u\<close> as often as \<open>u\<close> occurs in the list of \<open>v\<close>.
  A graph has no loop when no edge joins a vertex to itself.
\<close>

definition Graph2_sym :: "Graph2 \<Rightarrow> bool" where
  "Graph2_sym g =
     list_all (\<lambda>u. list_all (\<lambda>v. count_list (nbrs (graph g) u) v = count_list (nbrs (graph g) v) u)
                      (nbrs (graph g) u))
       (map fst (graph g))"

definition loop_free :: "edge list \<Rightarrow> bool" where
  "loop_free es = list_all (\<lambda>ee. fst ee \<noteq> snd ee) es"

definition Graph2_loop_free :: "Graph2 \<Rightarrow> bool" where
  "Graph2_loop_free g = list_all (\<lambda>u. \<not> Graph2_hasEdge g u u) (map fst (graph g))"

text \<open>
  Graph1 stores every edge as \<open>(min, max)\<close>: the constructor and \<open>addEdge\<close> write it
  so, and \<open>hasEdge\<close> looks it up so.
\<close>

definition Graph1_normal :: "Graph1 \<Rightarrow> bool" where
  "Graph1_normal g = list_all (\<lambda>ee. fst ee \<le> snd ee) (edges g)"

text \<open>
  What the specification says of the graph \<open>collapseEdge(g1, a, b)\<close> returns, in terms of
  the adjacency \<open>hasEdge\<close> of \<open>g1\<close>: \<open>b\<close> is gone; an edge that does not touch \<open>b\<close> stays;
  an edge between \<open>b\<close> and \<open>v\<close> becomes an edge between \<open>a\<close> and \<open>v\<close>, unless \<open>v\<close> is \<open>a\<close>
  (the collapsed edge itself, which would become the self-loop \<open>(a, a)\<close>).
\<close>

definition collapsed_adjacent :: "(int \<Rightarrow> int \<Rightarrow> bool) \<Rightarrow> int \<Rightarrow> int \<Rightarrow> int \<Rightarrow> int \<Rightarrow> bool" where
  "collapsed_adjacent hasEdge a b u v =
     (u \<noteq> b \<and> v \<noteq> b
      \<and> (hasEdge u v \<or> (u = a \<and> v \<noteq> a \<and> hasEdge b v) \<or> (v = a \<and> u \<noteq> a \<and> hasEdge u b)))"

section \<open>Objects and references\<close>

text \<open>
  Python variables hold references. Where a claim depends on which objects two graphs
  share, the objects live in a store: a cell is a list of vertices, a list of edges,
  an adjacency dict, or a graph object whose attributes are the addresses of its
  containers. An address is an index into the store and a new object goes to its end.
  The neighbour lists of an adjacency dict are kept inside its cell: no method of
  Graph2 hands one out or stores one it was given (the constructor, \<open>addVertex\<close> and
  \<open>addEdge\<close> create them, \<open>deleteVertex\<close> copies before it iterates, and the
  \<open>vertices\<close> and \<open>edges\<close> properties build new lists).
\<close>

datatype pyobj =
    IntList "int list"
  | EdgeList "edge list"
  | AdjDict "int list dict"
  | Graph1Obj nat nat
  | Graph2Obj nat

type_synonym heap = "pyobj list"

definition alloc :: "pyobj \<Rightarrow> heap \<Rightarrow> nat \<times> heap" where
  "alloc ob h = (length h, h @ [ob])"

definition at :: "heap \<Rightarrow> nat \<Rightarrow> pyobj option" where
  "at h r = (if r < length h then Some (h ! r) else None)"

text \<open>
  \<open>Graph1_view h self\<close> is the graph that the Graph1 object at \<open>self\<close> shows in the store
  \<open>h\<close>: the contents of the two lists its attributes refer to.
\<close>

definition Graph1_view :: "heap \<Rightarrow> nat \<Rightarrow> Graph1 option" where
  "Graph1_view h self =
     (case at h self of
        Some (Graph1Obj v e) \<Rightarrow>
          (case (at h v, at h e) of
             (Some (IntList vs), Some (EdgeList es)) \<Rightarrow> Some \<lparr>vertices = vs, edges = es\<rparr>
           | _ \<Rightarrow> None)
      | _ \<Rightarrow> None)"

text \<open>
  \<open>addVertex\<close>, \<open>addVertexCleanly\<close>, \<open>addEdge\<close> and \<open>deleteEdge\<close> change the lists of the
  object in place (\<open>append\<close>, \<open>remove\<close>): \<open>in_place1 f\<close> writes the lists that the method
  \<open>f\<close> of the previous sections computes back into the cells they came from.
\<close>

definition Graph1_write :: "nat \<Rightarrow> Graph1 \<Rightarrow> heap \<Rightarrow> heap" where
  "Graph1_write self g h =
     (case at h self of
        Some (Graph1Obj v e) \<Rightarrow> (h[v := IntList (vertices g)])[e := EdgeList (edges g)]
      | _ \<Rightarrow> h)"

definition in_place1 :: "(Graph1 \<Rightarrow> Graph1) \<Rightarrow> nat \<Rightarrow> heap \<Rightarrow> heap" where
  "in_place1 f self h =
     (case Graph1_view h self of None \<Rightarrow> h | Some g \<Rightarrow> Graph1_write self (f g) h)"

text \<open>
  \<open>Graph1.__init__\<close> keeps the vertex list it is given (\<open>self.vertices = vertices\<close>, the
  same object) and builds a new edge list. \<open>Graph1.copy\<close> is
  \<open>Graph1(self.vertices, self.edges)\<close>.
\<close>

definition Graph1_init_at :: "nat \<Rightarrow> edge list \<Rightarrow> heap \<Rightarrow> nat \<times> heap" where
  "Graph1_init_at vertices_ref es h =
     (let (e, h1) = alloc (EdgeList (map norm_edge es)) h
      in alloc (Graph1Obj vertices_ref e) h1)"

definition Graph1_copy :: "nat \<Rightarrow> heap \<Rightarrow> (nat \<times> heap) option" where
  "Graph1_copy self h =
     (case at h self of
        Some (Graph1Obj v e) \<Rightarrow>
          (case at h e of Some (EdgeList es) \<Rightarrow> Some (Graph1_init_at v es h) | _ \<Rightarrow> None)
      | _ \<Rightarrow> None)"

text \<open>
  \<open>deleteVertex\<close> removes from the vertex list in place and binds \<open>self.edges\<close> to a new
  list.
\<close>

definition Graph1_deleteVertex_at :: "int \<Rightarrow> nat \<Rightarrow> heap \<Rightarrow> heap" where
  "Graph1_deleteVertex_at a self h =
     (case at h self of
        Some (Graph1Obj v e) \<Rightarrow>
          (case (at h v, at h e) of
             (Some (IntList vs), Some (EdgeList es)) \<Rightarrow>
               if a \<in> set vs then
                 (let h1 = h[v := IntList (remove1 a vs)];
                      (e', h2) = alloc (EdgeList (filter (\<lambda>ee. \<not> in_pair a ee) es)) h1
                  in h2[self := Graph1Obj v e'])
               else h
           | _ \<Rightarrow> h)
      | _ \<Rightarrow> h)"

text \<open>The mutating methods, as calls on the object at an address.\<close>

datatype mutation =
    AddVertex int
  | AddVertexCleanly int
  | AddEdge int int
  | DeleteVertex int
  | DeleteEdge int int

fun Graph1_mutate :: "mutation \<Rightarrow> nat \<Rightarrow> heap \<Rightarrow> heap" where
  "Graph1_mutate (AddVertex a) self h = in_place1 (Graph1_addVertex a) self h"
| "Graph1_mutate (AddVertexCleanly a) self h =
     in_place1 (\<lambda>g. snd (Graph1_addVertexCleanly a g)) self h"
| "Graph1_mutate (AddEdge a b) self h = in_place1 (\<lambda>g. snd (Graph1_addEdge a b g)) self h"
| "Graph1_mutate (DeleteVertex a) self h = Graph1_deleteVertex_at a self h"
| "Graph1_mutate (DeleteEdge a b) self h = in_place1 (Graph1_deleteEdge a b) self h"

text \<open>
  The same for Graph2: its methods change the dict of the object in place.
  \<open>Graph2.copy\<close> is \<open>Graph2(self.vertices, self.edges)\<close>, where both properties build a
  new list, and the constructor builds a new dict.
\<close>

definition Graph2_view :: "heap \<Rightarrow> nat \<Rightarrow> Graph2 option" where
  "Graph2_view h self =
     (case at h self of
        Some (Graph2Obj d) \<Rightarrow>
          (case at h d of Some (AdjDict gr) \<Rightarrow> Some \<lparr>graph = gr\<rparr> | _ \<Rightarrow> None)
      | _ \<Rightarrow> None)"

definition in_place2 :: "(Graph2 \<Rightarrow> Graph2) \<Rightarrow> nat \<Rightarrow> heap \<Rightarrow> heap" where
  "in_place2 f self h =
     (case at h self of
        Some (Graph2Obj d) \<Rightarrow>
          (case at h d of Some (AdjDict gr) \<Rightarrow> h[d := AdjDict (graph (f \<lparr>graph = gr\<rparr>))]
           | _ \<Rightarrow> h)
      | _ \<Rightarrow> h)"

definition Graph2_init_at :: "int list \<Rightarrow> edge list \<Rightarrow> heap \<Rightarrow> (error + nat) \<times> heap" where
  "Graph2_init_at vs es h =
     (case Graph2_init vs es of Inl e \<Rightarrow> (Inl e, h)
      | Inr g \<Rightarrow>
         (let (d, h1) = alloc (AdjDict (graph g)) h;
              (self, h2) = alloc (Graph2Obj d) h1
          in (Inr self, h2)))"

definition Graph2_copy :: "nat \<Rightarrow> heap \<Rightarrow> ((error + nat) \<times> heap) option" where
  "Graph2_copy self h =
     (case Graph2_view h self of None \<Rightarrow> None
      | Some g \<Rightarrow>
         (let (vr, h1) = alloc (IntList (Graph2_vertices g)) h;
              (er, h2) = alloc (EdgeList (Graph2_edges g)) h1
          in Some (Graph2_init_at (Graph2_vertices g) (Graph2_edges g) h2)))"

fun Graph2_mutate :: "mutation \<Rightarrow> nat \<Rightarrow> heap \<Rightarrow> heap" where
  "Graph2_mutate (AddVertex a) self h = in_place2 (Graph2_addVertex a) self h"
| "Graph2_mutate (AddVertexCleanly a) self h =
     in_place2 (\<lambda>g. snd (Graph2_addVertexCleanly a g)) self h"
| "Graph2_mutate (AddEdge a b) self h = in_place2 (\<lambda>g. snd (Graph2_addEdge a b g)) self h"
| "Graph2_mutate (DeleteVertex a) self h = in_place2 (\<lambda>g. snd (Graph2_deleteVertex a g)) self h"
| "Graph2_mutate (DeleteEdge a b) self h = in_place2 (\<lambda>g. snd (Graph2_deleteEdge a b g)) self h"

definition mutate_all :: "(mutation \<Rightarrow> nat \<Rightarrow> heap \<Rightarrow> heap) \<Rightarrow> mutation list \<Rightarrow> nat \<Rightarrow> heap \<Rightarrow> heap" where
  "mutate_all step ms self h = fold (\<lambda>m. step m self) ms h"

text \<open>
  The invariants of the statements about \<open>copy\<close>. \<open>sep1 h x y es\<close>: \<open>x\<close> and \<open>y\<close> are Graph1
  objects with the same vertex list and different edge lists, and the edge list of \<open>x\<close>
  holds \<open>es\<close>. \<open>sep2 h x y gr\<close>: \<open>x\<close> and \<open>y\<close> are Graph2 objects with different dicts, and
  the dict of \<open>x\<close> holds \<open>gr\<close>.
\<close>

definition sep1 :: "heap \<Rightarrow> nat \<Rightarrow> nat \<Rightarrow> edge list \<Rightarrow> bool" where
  "sep1 h x y es =
     (\<exists>v ex ey vs es'. at h x = Some (Graph1Obj v ex) \<and> at h y = Some (Graph1Obj v ey)
        \<and> ex \<noteq> ey \<and> at h v = Some (IntList vs)
        \<and> at h ex = Some (EdgeList es) \<and> at h ey = Some (EdgeList es'))"

definition sep2 :: "heap \<Rightarrow> nat \<Rightarrow> nat \<Rightarrow> int list dict \<Rightarrow> bool" where
  "sep2 h x y gr =
     (\<exists>dx dy gr'. at h x = Some (Graph2Obj dx) \<and> at h y = Some (Graph2Obj dy)
        \<and> dx \<noteq> dy \<and> at h dx = Some (AdjDict gr) \<and> at h dy = Some (AdjDict gr'))"

section \<open>Properties\<close>

subsection \<open>Graph1 and the edge view of Graph2\<close>

lemma Graph1_inv_iff:
  "Graph1_inv g \<longleftrightarrow> (\<forall>e \<in> set (edges g). fst e \<in> set (vertices g) \<and> snd e \<in> set (vertices g))"
  by (simp add: Graph1_inv_def list_all_iff Graph1_hasVertex_def)

lemma endpoints_among_iff:
  "endpoints_among vs es \<longleftrightarrow> (\<forall>e \<in> set es. fst e \<in> set vs \<and> snd e \<in> set vs)"
  by (simp add: endpoints_among_def list_all_iff)

lemma Graph2_hasVertex_iff: "Graph2_hasVertex g v \<longleftrightarrow> map_of (graph g) v \<noteq> None"
  by (simp add: Graph2_hasVertex_def map_of_eq_None_iff)




text \<open>Membership in the edge view of a Graph2.\<close>

lemma Graph2_edges_iff:
  "(u, v) \<in> set (Graph2_edges g) \<longleftrightarrow> (\<exists>ns. map_of (graph g) u = Some ns \<and> v \<in> set ns \<and> u < v)"
proof -
  let ?f = "\<lambda>k. case map_of (graph g) k of None \<Rightarrow> []
                 | Some ns \<Rightarrow> map (\<lambda>w. (k, w)) (filter (\<lambda>w. k < w) ns)"
  have f: "(u, v) \<in> set (?f k) \<longleftrightarrow> k = u \<and> (\<exists>ns. map_of (graph g) u = Some ns \<and> v \<in> set ns \<and> u < v)" for k
    by (cases "map_of (graph g) k") auto
  have "(u, v) \<in> set (Graph2_edges g) \<longleftrightarrow> (\<exists>k \<in> set (map fst (graph g)). (u, v) \<in> set (?f k))"
    unfolding Graph2_edges_def set_concat set_map by blast
  also have "\<dots> \<longleftrightarrow> (\<exists>ns. map_of (graph g) u = Some ns \<and> v \<in> set ns \<and> u < v)"
    unfolding f using map_of_eq_None_iff [of "graph g" u] by auto
  finally show ?thesis .
qed







subsection \<open>Dicts\<close>

lemma map_of_foldl_update:
  "map_of (foldl (\<lambda>d p. AList.update (fst p) (snd p) d) d0 ps) = map_of d0 ++ map_of (rev ps)"
proof (induction ps arbitrary: d0)
  case Nil
  show ?case by simp
next
  case (Cons p ps)
  have "map_of (AList.update (fst p) (snd p) d0) ++ map_of (rev ps)
        = map_of d0 ++ (map_of [p] ++ map_of (rev ps))"
    by (cases p) (simp add: update_conv' fun_eq_iff map_add_def split: option.splits)
  with Cons.IH [of "AList.update (fst p) (snd p) d0"] show ?case
    by simp
qed

lemma distinct_foldl_update:
  "distinct (map fst d0) \<Longrightarrow> distinct (map fst (foldl (\<lambda>d p. AList.update (fst p) (snd p) d) d0 ps))"
  by (induction ps arbitrary: d0) (simp_all add: distinct_update)

lemma distinct_dict_of: "distinct (map fst (dict_of ps))"
  by (simp add: dict_of_def distinct_foldl_update)

lemma map_of_dict_of: "map_of (dict_of ps) = map_of (rev ps)"
  by (simp add: dict_of_def map_of_foldl_update)

lemma map_of_const_pairs:
  "map_of (rev (map (\<lambda>v. (v, f v)) vs)) k = (if k \<in> set vs then Some (f k) else None)"
  by (induction vs) (auto simp: map_add_def split: option.splits)

lemma map_of_init_dict:
  "map_of (dict_of (map (\<lambda>v. (v, f v)) vs)) k = (if k \<in> set vs then Some (f k) else None)"
  by (simp add: map_of_dict_of map_of_const_pairs)

lemma dict_append_Inr:
  "dict_append k x d = Inr d' \<longleftrightarrow> (\<exists>l. map_of d k = Some l \<and> d' = AList.update k (l @ [x]) d)"
  by (auto simp: dict_append_def split: option.splits)

lemma dict_append_Inl:
  "dict_append k x d = Inl e \<longleftrightarrow> map_of d k = None \<and> e = KeyError"
  by (auto simp: dict_append_def split: option.splits)

lemma dict_append_dom:
  "dict_append k x d = Inr d' \<Longrightarrow> dom (map_of d') = dom (map_of d)"
  by (auto simp: dict_append_Inr update_conv' split: if_splits)

lemma dict_append_distinct:
  "dict_append k x d = Inr d' \<Longrightarrow> distinct (map fst d) \<Longrightarrow> distinct (map fst d')"
  by (auto simp: dict_append_Inr distinct_update)

lemma dict_append_keys:
  "dict_append k x d = Inr d' \<Longrightarrow> map fst d' = map fst d"
proof -
  assume "dict_append k x d = Inr d'"
  then obtain l where l: "map_of d k = Some l" and d': "d' = AList.update k (l @ [x]) d"
    by (auto simp: dict_append_Inr)
  from l have "k \<in> fst ` set d" using map_of_eq_None_iff [of d k] by auto
  with d' show ?thesis by (simp add: update_keys)
qed

lemma dict_append_nbrs:
  "dict_append k x d = Inr d' \<Longrightarrow> nbrs d' u = (if u = k then nbrs d u @ [x] else nbrs d u)"
  by (auto simp: dict_append_Inr nbrs_def update_conv')

lemma init_edges_dom:
  "init_edges es d = Inr d' \<Longrightarrow> dom (map_of d') = dom (map_of d)"
proof (induction es arbitrary: d)
  case Nil
  then show ?case by simp
next
  case (Cons ee es)
  from Cons.prems obtain d1 d2 where
    d1: "dict_append (fst ee) (snd ee) d = Inr d1" and
    d2: "dict_append (snd ee) (fst ee) d1 = Inr d2" and
    r: "init_edges es d2 = Inr d'"
    by (auto split: sum.splits)
  from Cons.IH [OF r] dict_append_dom [OF d1] dict_append_dom [OF d2] show ?case by simp
qed

lemma init_edges_keys:
  "init_edges es d = Inr d' \<Longrightarrow> map fst d' = map fst d"
proof (induction es arbitrary: d)
  case Nil
  then show ?case by simp
next
  case (Cons ee es)
  from Cons.prems obtain d1 d2 where
    d1: "dict_append (fst ee) (snd ee) d = Inr d1" and
    d2: "dict_append (snd ee) (fst ee) d1 = Inr d2" and
    r: "init_edges es d2 = Inr d'"
    by (auto split: sum.splits)
  from Cons.IH [OF r] dict_append_keys [OF d1] dict_append_keys [OF d2] show ?case by simp
qed

lemma init_edges_ok_iff:
  "(\<exists>d'. init_edges es d = Inr d') \<longleftrightarrow>
   (\<forall>e \<in> set es. fst e \<in> dom (map_of d) \<and> snd e \<in> dom (map_of d))"
proof (induction es arbitrary: d)
  case Nil
  show ?case by simp
next
  case (Cons ee es)
  show ?case
  proof (cases "dict_append (fst ee) (snd ee) d")
    case (Inl e)
    then have "init_edges (ee # es) d = Inl e" by simp
    moreover from Inl have "fst ee \<notin> dom (map_of d)" by (auto simp: dict_append_Inl)
    ultimately show ?thesis by auto
  next
    case (Inr d1)
    note d1 = this
    then have f: "fst ee \<in> dom (map_of d)" by (auto simp: dict_append_Inr)
    from d1 have dom1: "dom (map_of d1) = dom (map_of d)" by (rule dict_append_dom)
    show ?thesis
    proof (cases "dict_append (snd ee) (fst ee) d1")
      case (Inl e)
      then have "snd ee \<notin> dom (map_of d)" using dom1 by (auto simp: dict_append_Inl)
      moreover from d1 Inl have "init_edges (ee # es) d = Inl e" by simp
      ultimately show ?thesis by auto
    next
      case (Inr d2)
      then have s: "snd ee \<in> dom (map_of d)" using dom1 by (auto simp: dict_append_Inr)
      from Inr have dom2: "dom (map_of d2) = dom (map_of d)" using dom1 dict_append_dom by blast
      from d1 Inr Cons.IH [of d2] f s dom2 show ?thesis by simp
    qed
  qed
qed

lemma init_edges_Inl:
  "init_edges es d = Inl e \<Longrightarrow> e = KeyError"
  by (induction es arbitrary: d) (auto split: sum.splits simp: dict_append_Inl)

lemma init_edges_set_nbrs:
  "init_edges es d = Inr d' \<Longrightarrow>
   set (nbrs d' u) = set (nbrs d u) \<union> {v. (u, v) \<in> set es \<or> (v, u) \<in> set es}"
proof (induction es arbitrary: d)
  case Nil
  then show ?case by simp
next
  case (Cons ee es)
  from Cons.prems obtain d1 d2 where
    d1: "dict_append (fst ee) (snd ee) d = Inr d1" and
    d2: "dict_append (snd ee) (fst ee) d1 = Inr d2" and
    r: "init_edges es d2 = Inr d'"
    by (auto split: sum.splits)
  have "set (nbrs d2 u) = set (nbrs d u) \<union> {v. (u, v) = ee \<or> (v, u) = ee}"
    unfolding dict_append_nbrs [OF d2, of u] dict_append_nbrs [OF d1, of u]
    by (cases ee) auto
  with Cons.IH [OF r] show ?case by auto
qed

lemma count_list_two_appends:
  assumes n2: "ns2 = (if u = b then (if u = a then ns @ [b] else ns) @ [a]
                      else if u = a then ns @ [b] else ns)"
  shows "count_list ns2 v = count_list ns v + count_list [(a, b)] (u, v) + count_list [(a, b)] (v, u)"
proof (cases "u = a")
  case True
  then show ?thesis unfolding n2 by (cases "u = b"; cases "v = b"; cases "v = a"; simp)
next
  case False
  then show ?thesis unfolding n2 by (cases "u = b"; cases "v = b"; cases "v = a"; simp)
qed

lemma init_edges_count_nbrs:
  "init_edges es d = Inr d' \<Longrightarrow>
   count_list (nbrs d' u) v = count_list (nbrs d u) v + count_list es (u, v) + count_list es (v, u)"
proof (induction es arbitrary: d)
  case Nil
  then show ?case by simp
next
  case (Cons ee es)
  from Cons.prems obtain d1 d2 where
    d1: "dict_append (fst ee) (snd ee) d = Inr d1" and
    d2: "dict_append (snd ee) (fst ee) d1 = Inr d2" and
    r: "init_edges es d2 = Inr d'"
    by (auto split: sum.splits)
  obtain a b where ee: "ee = (a, b)" by (cases ee)
  have n2: "nbrs d2 u = (if u = b then (if u = a then nbrs d u @ [b] else nbrs d u) @ [a]
                         else if u = a then nbrs d u @ [b] else nbrs d u)"
    unfolding dict_append_nbrs [OF d2, of u] dict_append_nbrs [OF d1, of u] ee by simp
  have c1: "count_list (ee # es) (u, v) = count_list [(a, b)] (u, v) + count_list es (u, v)"
    and c2: "count_list (ee # es) (v, u) = count_list [(a, b)] (v, u) + count_list es (v, u)"
    unfolding ee by simp_all
  show ?case
    unfolding c1 c2 Cons.IH [OF r] count_list_two_appends [OF n2, of v] by simp
qed

subsection \<open>The constructor of Graph2\<close>

lemma Graph2_init_ok_iff:
  "(\<exists>g. Graph2_init vs es = Inr g) \<longleftrightarrow> endpoints_among vs es"
proof -
  let ?d = "dict_of (map (\<lambda>v. (v, [])) vs)"
  have dom: "dom (map_of ?d) = set vs"
    by (auto simp: map_of_init_dict dom_def)
  have "(\<exists>g. Graph2_init vs es = Inr g) \<longleftrightarrow> (\<exists>d'. init_edges es ?d = Inr d')"
    by (auto simp: Graph2_init_def split: sum.splits)
  then show ?thesis
    unfolding init_edges_ok_iff dom endpoints_among_iff .
qed

lemma Graph2_init_Inl: "Graph2_init vs es = Inl e \<Longrightarrow> e = KeyError"
  by (auto simp: Graph2_init_def split: sum.splits dest: init_edges_Inl)

lemma Graph2_init_hasVertex:
  "Graph2_init vs es = Inr g \<Longrightarrow> Graph2_hasVertex g v \<longleftrightarrow> v \<in> set vs"
proof -
  assume "Graph2_init vs es = Inr g"
  then have "init_edges es (dict_of (map (\<lambda>v. (v, [])) vs)) = Inr (graph g)"
    by (auto simp: Graph2_init_def split: sum.splits)
  from init_edges_dom [OF this] show ?thesis
    by (auto simp: Graph2_hasVertex_iff map_of_init_dict dom_def split: if_splits)
qed

lemma Graph2_hasEdge_nbrs: "Graph2_hasEdge g a b \<longleftrightarrow> b \<in> set (nbrs (graph g) a)"
  by (simp add: Graph2_hasEdge_def nbrs_def split: option.splits)

lemma Graph2_init_nbrs_count:
  assumes "Graph2_init vs es = Inr g"
  shows "count_list (nbrs (graph g) u) v = count_list es (u, v) + count_list es (v, u)"
proof -
  from assms have "init_edges es (dict_of (map (\<lambda>v. (v, [])) vs)) = Inr (graph g)"
    by (auto simp: Graph2_init_def split: sum.splits)
  from init_edges_count_nbrs [OF this, of u v] show ?thesis
    by (simp add: nbrs_def map_of_init_dict)
qed

lemma Graph2_init_hasEdge:
  assumes "Graph2_init vs es = Inr g"
  shows "Graph2_hasEdge g u v \<longleftrightarrow> (u, v) \<in> set es \<or> (v, u) \<in> set es"
proof -
  from assms have "init_edges es (dict_of (map (\<lambda>v. (v, [])) vs)) = Inr (graph g)"
    by (auto simp: Graph2_init_def split: sum.splits)
  from init_edges_set_nbrs [OF this, of u] show ?thesis
    by (auto simp: Graph2_hasEdge_nbrs nbrs_def map_of_init_dict)
qed


subsection \<open>The factories\<close>

lemma set_range_list: "set (range_list n) = {0 .. n - 1}"
  by (simp add: range_list_def)



lemma cycle_endpoints:
  "1 \<le> len \<Longrightarrow>
   endpoints_among (range_list len) (map (\<lambda>i. (i, i + 1)) (range_list (len - 1)) @ [(0, len - 1)])"
  by (auto simp: endpoints_among_iff set_range_list)





section \<open>Delete operations on absent targets\<close>

text \<open>
  \<open>deleteVertex\<close> of an absent vertex and \<open>Graph1.deleteEdge\<close> of an absent edge return
  with the graph as it was, and so does \<open>Graph2.deleteEdge\<close> when its first argument is
  a vertex whose list lacks the second. When the first argument is no vertex,
  \<open>Graph2.deleteEdge\<close> raises KeyError.
\<close>

lemma delete_absent:
  "\<not> Graph1_hasVertex g1 a \<Longrightarrow> Graph1_deleteVertex a g1 = g1"
  "\<not> Graph1_hasEdge g1 a b \<Longrightarrow> Graph1_deleteEdge a b g1 = g1"
  "\<not> Graph2_hasVertex g2 a \<Longrightarrow> Graph2_deleteVertex a g2 = (Returns (), g2)"
  "Graph2_hasVertex g2 a \<Longrightarrow> \<not> Graph2_hasEdge g2 a b \<Longrightarrow>
     Graph2_deleteEdge a b g2 = (Returns (), g2)"
  "\<not> Graph2_hasVertex g2 a \<Longrightarrow> Graph2_deleteEdge a b g2 = (Raises KeyError, g2)"
  by (auto simp: Graph1_hasVertex_def Graph1_deleteVertex_def Graph1_hasEdge_def
      Graph1_deleteEdge_def Graph2_hasVertex_iff Graph2_deleteVertex_def Graph2_hasEdge_def
      Graph2_deleteEdge_def Let_def split: option.splits)

text \<open>
  Claim C5. Deleting an absent vertex or an absent edge should return normally and
  leave the graph as it was, also when an endpoint is no vertex at all. On the
  one-vertex Graph2 with vertex 1 and no edge, \<open>deleteEdge(2, 1)\<close> raises KeyError: the
  edge is absent (\<open>hasEdge(2, 1)\<close> is false), yet the call does not return normally.
\<close>

theorem Graph2_deleteEdge_absent_vertex_raises:
  "Graph2_init [1] [] = Inr \<lparr>graph = [(1, [])]\<rparr>
   \<and> Graph2_hasEdge \<lparr>graph = [(1, [])]\<rparr> 2 1 = False
   \<and> fst (Graph2_deleteEdge 2 1 \<lparr>graph = [(1, [])]\<rparr>) = Raises KeyError"
  by (simp add: Graph2_init_def dict_of_def Graph2_hasEdge_def Graph2_deleteEdge_def)

section \<open>Agreement of the two connectivity algorithms\<close>

text \<open>
  Claim C1. \<open>isConnected1\<close> and \<open>isConnected2\<close> should return the same boolean on every
  graph whose edges join vertices of the graph, and each should return the same on a
  Graph1 and a Graph2 built from the same vertices and edges. On the vertex list
  \<open>[1, 1]\<close> with no edge, \<open>Graph1.isConnected1\<close> returns True (one bucket) and
  \<open>Graph1.isConnected2\<close> returns False (it counts the two entries of the list), while
  both methods of the Graph2 built from the same lists return True. \<open>addEdge(1, 1)\<close> on
  the empty Graph1 builds such a vertex list itself, and the two methods disagree there
  too.
\<close>

theorem Graph1_isConnected_disagree_on_repeated_vertex:
  "Graph1_init [1, 1] [] = \<lparr>vertices = [1, 1], edges = []\<rparr>
   \<and> Graph1_isConnected1 \<lparr>vertices = [1, 1], edges = []\<rparr> = Some (Inr True)
   \<and> Graph1_isConnected2 \<lparr>vertices = [1, 1], edges = []\<rparr> = Some (Inr False)
   \<and> Graph2_init [1, 1] [] = Inr \<lparr>graph = [(1, [])]\<rparr>
   \<and> Graph2_isConnected1 \<lparr>graph = [(1, [])]\<rparr> = Some (Inr True)
   \<and> Graph2_isConnected2 \<lparr>graph = [(1, [])]\<rparr> = Some (Inr True)
   \<and> snd (Graph1_addEdge 1 1 (Graph1_init [] [])) = \<lparr>vertices = [1, 1], edges = [(1, 1)]\<rparr>
   \<and> Graph1_isConnected1 \<lparr>vertices = [1, 1], edges = [(1, 1)]\<rparr> = Some (Inr True)
   \<and> Graph1_isConnected2 \<lparr>vertices = [1, 1], edges = [(1, 1)]\<rparr> = Some (Inr False)"
  by (simp add: Graph1_init_def Graph1_isConnected1_def Graph1_isConnected2_def dict_of_def
      while_edges1.simps while_pairs2.simps one_bucket_def Graph2_init_def
      Graph2_isConnected1_def Graph2_isConnected2_def while_verts1.simps adjacency_pairs_def
      Graph1_addEdge_def Graph1_hasEdge_def Graph1_addVertex_def find_root.simps
      union_step_def)

section \<open>Symmetry of the adjacency lists\<close>

text \<open>
  Claim C10. In a Graph2 built by the constructor and changed by \<open>addVertexCleanly\<close>,
  \<open>addEdge\<close>, \<open>addEdges\<close>, \<open>deleteEdge\<close> and \<open>deleteVertex\<close>, \<open>b\<close> should occur in the list
  of \<open>a\<close> as often as \<open>a\<close> occurs in the list of \<open>b\<close>, so that \<open>hasEdge(a, b)\<close> equals
  \<open>hasEdge(b, a)\<close>. The constructor on vertices \<open>[1, 2]\<close> and edges \<open>[(1, 1), (1, 2)]\<close>
  gives the dict \<open>{1: [1, 1, 2], 2: [1]}\<close>. \<open>deleteVertex(1)\<close> then deletes the key 1 and
  meets 1 itself first in the copied list: the lookup \<open>self.graph[1]\<close> raises KeyError,
  which the method's own handler swallows, and the loop never reaches vertex 2. The
  call returns with the dict \<open>{2: [1]}\<close>: 1 occurs once in the list of 2, 2 never in the
  list of 1 (1 is no vertex), \<open>hasEdge(2, 1)\<close> is true and \<open>hasEdge(1, 2)\<close> is false.
\<close>

theorem Graph2_deleteVertex_self_loop_breaks_symmetry:
  "Graph2_init [1, 2] [(1, 1), (1, 2)] = Inr \<lparr>graph = [(1, [1, 1, 2]), (2, [1])]\<rparr>
   \<and> Graph2_deleteVertex 1 \<lparr>graph = [(1, [1, 1, 2]), (2, [1])]\<rparr>
       = (Returns (), \<lparr>graph = [(2, [1])]\<rparr>)
   \<and> Graph2_hasEdge \<lparr>graph = [(2, [1])]\<rparr> 2 1 = True
   \<and> Graph2_hasEdge \<lparr>graph = [(2, [1])]\<rparr> 1 2 = False"
  by (simp add: Graph2_init_def dict_of_def dict_append_def Graph2_deleteVertex_def
      Graph2_hasEdge_def AList.delete_eq)

section \<open>The endpoints of every edge are vertices\<close>




section \<open>The degree of an absent vertex\<close>

text \<open>
  Claim C9. \<open>Graph1.degree\<close> should return 0 for every vertex that is not in the graph,
  and \<open>Graph2.degree\<close> should fail exactly for those. \<open>Graph1.degree\<close> counts the edges
  that contain the vertex, whether or not the vertex list has it: in the Graph1 with no
  vertex and the edge \<open>(1, 2)\<close>, vertex 1 is absent and has degree 1.
\<close>

theorem Graph1_degree_absent_vertex_counterexample:
  "\<not> Graph1_hasVertex (Graph1_init [] [(1, 2)]) 1
   \<and> Graph1_degree (Graph1_init [] [(1, 2)]) 1 = 1"
  by (simp add: Graph1_hasVertex_def Graph1_init_def Graph1_degree_def norm_edge_def in_pair_def)

text \<open>
  Claim C9 as amended. On a Graph1 whose edges all join vertices of the graph,
  \<open>degree(v)\<close> is 0 for every absent vertex \<open>v\<close>. On a Graph2, \<open>degree(v)\<close> raises KeyError
  when \<open>v\<close> is absent and returns a number when \<open>v\<close> is a vertex, so the error is reached
  exactly when \<open>hasVertex(v)\<close> is false.
\<close>

theorem degree_absent_vertex:
  "(Graph1_inv g1 \<and> \<not> Graph1_hasVertex g1 v \<longrightarrow> Graph1_degree g1 v = 0)
   \<and> (\<not> Graph2_hasVertex g2 v \<longrightarrow> Graph2_degree g2 v = Inl KeyError)
   \<and> (Graph2_hasVertex g2 v \<longrightarrow> (\<exists>n. Graph2_degree g2 v = Inr n))"
proof -
  have "Graph1_inv g1 \<Longrightarrow> \<not> Graph1_hasVertex g1 v \<Longrightarrow> Graph1_degree g1 v = 0"
    by (auto simp: Graph1_inv_iff Graph1_hasVertex_def Graph1_degree_def in_pair_def
        filter_empty_conv)
  then show ?thesis
    by (auto simp: Graph2_degree_def Graph2_hasVertex_iff split: option.splits)
qed

theorem degree_absent_vertex_witness:
  "Graph1_inv \<lparr>vertices = [1, 2], edges = [(1, 2)]\<rparr>
   \<and> \<not> Graph1_hasVertex \<lparr>vertices = [1, 2], edges = [(1, 2)]\<rparr> 3
   \<and> Graph1_degree \<lparr>vertices = [1, 2], edges = [(1, 2)]\<rparr> 3 = 0
   \<and> \<not> Graph2_hasVertex \<lparr>graph = [(1, [2]), (2, [1])]\<rparr> 3
   \<and> Graph2_degree \<lparr>graph = [(1, [2]), (2, [1])]\<rparr> 3 = Inl KeyError
   \<and> Graph2_hasVertex \<lparr>graph = [(1, [2]), (2, [1])]\<rparr> 1
   \<and> Graph2_degree \<lparr>graph = [(1, [2]), (2, [1])]\<rparr> 1 = Inr 1"
  using degree_absent_vertex [of "\<lparr>vertices = [1, 2], edges = [(1, 2)]\<rparr>" 3 "\<lparr>graph = [(1, [2]), (2, [1])]\<rparr>"]
    degree_absent_vertex [of "\<lparr>vertices = [1, 2], edges = [(1, 2)]\<rparr>" 1 "\<lparr>graph = [(1, [2]), (2, [1])]\<rparr>"]
  by (simp add: Graph1_inv_def Graph1_hasVertex_def Graph2_hasVertex_def Graph2_degree_def)

section \<open>cycle\<close>

lemma Graph2_init_vertices:
  assumes "Graph2_init vs es = Inr g"
  shows "set (Graph2_vertices g) = set vs" and "distinct (Graph2_vertices g)"
proof -
  from assms have i: "init_edges es (dict_of (map (\<lambda>v. (v, [])) vs)) = Inr (graph g)"
    by (auto simp: Graph2_init_def split: sum.splits)
  have "set (Graph2_vertices g) = {v. Graph2_hasVertex g v}"
    by (auto simp: Graph2_vertices_def Graph2_hasVertex_def)
  then show "set (Graph2_vertices g) = set vs"
    using Graph2_init_hasVertex [OF assms] by auto
  show "distinct (Graph2_vertices g)"
    unfolding Graph2_vertices_def init_edges_keys [OF i] by (rule distinct_dict_of)
qed

lemma norm_edge_le: "a \<le> b \<Longrightarrow> norm_edge (a, b) = (a, b)"
  by (simp add: norm_edge_def)

lemma map_norm_edge_succ: "map norm_edge (map (\<lambda>i. (i, i + 1)) xs) = map (\<lambda>i. (i, i + 1)) xs"
  by (induction xs) (simp_all add: norm_edge_le)

text \<open>
  Claim C8. \<open>cycle(length)\<close> should give the vertices \<open>0 .. length - 1\<close>, the edges
  \<open>(i, i + 1)\<close> and the closing edge \<open>(0, length - 1)\<close>, and for \<open>length \<le> 1\<close> an empty or
  one-vertex graph without a self-loop. For length 1 the closing edge is \<open>(0, 0)\<close>, a
  self-loop at the only vertex, in both representations. For length 0 the closing edge
  is \<open>(0, - 1)\<close> on no vertex: a Graph1 stores it as \<open>(- 1, 0)\<close>, the constructor of
  Graph2 raises KeyError.
\<close>

theorem cycle_degenerate_counterexample:
  "cycle Graph1_init 1 = \<lparr>vertices = [0], edges = [(0, 0)]\<rparr>
   \<and> Graph1_hasEdge (cycle Graph1_init 1) 0 0
   \<and> cycle Graph2_init 1 = Inr \<lparr>graph = [(0, [0, 0])]\<rparr>
   \<and> Graph2_hasEdge \<lparr>graph = [(0, [0, 0])]\<rparr> 0 0
   \<and> cycle Graph1_init 0 = \<lparr>vertices = [], edges = [(- 1, 0)]\<rparr>
   \<and> cycle Graph2_init 0 = Inl KeyError"
  by (simp add: cycle_def range_list_def upto.simps Graph1_init_def norm_edge_def
      Graph1_hasEdge_def Graph2_init_def dict_of_def dict_append_def Graph2_hasEdge_def)

text \<open>
  Claim C8 as amended. For every length from 1 on, \<open>cycle(length)\<close> gives the vertices
  \<open>0 .. length - 1\<close> and the edges \<open>(i, i + 1)\<close> for \<open>i\<close> in \<open>0 .. length - 2\<close> plus the
  closing edge \<open>(0, length - 1)\<close>: as the lists of a Graph1, and as the keys and the
  adjacency (in both directions) of a Graph2. For length 1 that is one vertex with the
  self-loop \<open>(0, 0)\<close>.
\<close>

theorem cycle_shape:
  "1 \<le> n \<longrightarrow>
     cycle Graph1_init n
       = \<lparr>vertices = [0 .. n - 1], edges = map (\<lambda>i. (i, i + 1)) [0 .. n - 2] @ [(0, n - 1)]\<rparr>
     \<and> (\<exists>g. cycle Graph2_init n = Inr g
            \<and> set (Graph2_vertices g) = {0 .. n - 1} \<and> distinct (Graph2_vertices g)
            \<and> (\<forall>u v. Graph2_hasEdge g u v \<longleftrightarrow>
                   (u, v) \<in> set (map (\<lambda>i. (i, i + 1)) [0 .. n - 2] @ [(0, n - 1)])
                   \<or> (v, u) \<in> set (map (\<lambda>i. (i, i + 1)) [0 .. n - 2] @ [(0, n - 1)])))
     \<and> (n = 1 \<longrightarrow> Graph1_hasEdge (cycle Graph1_init n) 0 0)"
proof
  assume n: "1 \<le> n"
  let ?es = "map (\<lambda>i. (i, i + 1)) [0 .. n - 2] @ [(0, n - 1)]"
  have c1: "cycle Graph1_init n = \<lparr>vertices = [0 .. n - 1], edges = ?es\<rparr>"
    using n by (simp add: cycle_def Graph1_init_def range_list_def map_norm_edge_succ norm_edge_le)
  have c2: "cycle Graph2_init n = Graph2_init [0 .. n - 1] ?es"
    by (simp add: cycle_def range_list_def)
  from cycle_endpoints [OF n] obtain g where g: "Graph2_init [0 .. n - 1] ?es = Inr g"
    using Graph2_init_ok_iff [of "[0 .. n - 1]" ?es] by (auto simp: range_list_def)
  have "set (Graph2_vertices g) = {0 .. n - 1}" "distinct (Graph2_vertices g)"
    using Graph2_init_vertices [OF g] by simp_all
  moreover have "\<forall>u v. Graph2_hasEdge g u v \<longleftrightarrow> (u, v) \<in> set ?es \<or> (v, u) \<in> set ?es"
    using Graph2_init_hasEdge [OF g] by blast
  moreover have "n = 1 \<longrightarrow> Graph1_hasEdge (cycle Graph1_init n) 0 0"
    unfolding c1 by (simp add: Graph1_hasEdge_def)
  ultimately show "cycle Graph1_init n = \<lparr>vertices = [0 .. n - 1], edges = ?es\<rparr>
     \<and> (\<exists>g. cycle Graph2_init n = Inr g
            \<and> set (Graph2_vertices g) = {0 .. n - 1} \<and> distinct (Graph2_vertices g)
            \<and> (\<forall>u v. Graph2_hasEdge g u v \<longleftrightarrow> (u, v) \<in> set ?es \<or> (v, u) \<in> set ?es))
     \<and> (n = 1 \<longrightarrow> Graph1_hasEdge (cycle Graph1_init n) 0 0)"
    using c1 c2 g by auto
qed

lemma upto_4: "[0 .. (3::int)] = [0, 1, 2, 3]" "[0 .. (2::int)] = [0, 1, 2]"
  by (simp_all add: upto.simps)

theorem cycle_shape_witness:
  "(1 :: int) \<le> 4
   \<and> cycle Graph1_init 4 = \<lparr>vertices = [0, 1, 2, 3], edges = [(0, 1), (1, 2), (2, 3), (0, 3)]\<rparr>
   \<and> (\<exists>g. cycle Graph2_init 4 = Inr g
          \<and> set (Graph2_vertices g) = {0, 1, 2, 3} \<and> distinct (Graph2_vertices g)
          \<and> Graph2_hasEdge g 3 0 \<and> \<not> Graph2_hasEdge g 0 2)
   \<and> (1 :: int) \<le> 1
   \<and> cycle Graph1_init 1 = \<lparr>vertices = [0], edges = [(0, 0)]\<rparr>
   \<and> Graph1_hasEdge (cycle Graph1_init 1) 0 0"
  using cycle_shape [of 4] cycle_shape [of 1] by (auto simp: upto_4 upto.simps)

section \<open>The sum of the degrees\<close>

subsection \<open>Degrees in a Graph1\<close>

lemma update_fresh: "k \<notin> fst ` set al \<Longrightarrow> AList.update k v al = al @ [(k, v)]"
  by (induction al) auto

lemma foldl_update_distinct:
  "distinct (map fst ps) \<Longrightarrow> fst ` set d0 \<inter> fst ` set ps = {} \<Longrightarrow>
   foldl (\<lambda>d p. AList.update (fst p) (snd p) d) d0 ps = d0 @ ps"
proof (induction ps arbitrary: d0)
  case Nil
  then show ?case by simp
next
  case (Cons p ps)
  from Cons.prems have fresh: "fst p \<notin> fst ` set d0" by auto
  have "foldl (\<lambda>d p. AList.update (fst p) (snd p) d) (d0 @ [p]) ps = (d0 @ [p]) @ ps"
    using Cons.prems by (intro Cons.IH) (auto simp: image_Un)
  then show ?case by (simp add: update_fresh [OF fresh])
qed

lemma dict_of_distinct: "distinct (map fst ps) \<Longrightarrow> dict_of ps = ps"
  using foldl_update_distinct [of ps "[]"] by (simp add: dict_of_def)

lemma length_filter_sum: "length (filter P xs) = sum_list (map (\<lambda>x. if P x then 1 else 0) xs)"
  by (induction xs) simp_all

lemma two_members:
  assumes "distinct vs" "a \<in> set vs" "b \<in> set vs" "a \<noteq> b"
  shows "length (filter (\<lambda>v. v = a \<or> v = b) vs) = 2"
proof -
  have "{x. x = a \<or> x = b} \<inter> set vs = {a, b}" using assms by auto
  then show ?thesis using assms by (simp add: distinct_length_filter)
qed

lemma sum_degree_list:
  assumes "distinct vs"
    and "\<forall>e \<in> set es. fst e \<in> set vs \<and> snd e \<in> set vs \<and> fst e \<noteq> snd e"
  shows "sum_list (map (\<lambda>v. length (filter (\<lambda>xx. in_pair v xx) es)) vs) = 2 * length es"
  using assms(2)
proof (induction es)
  case Nil
  show ?case by simp
next
  case (Cons e es)
  have "sum_list (map (\<lambda>v. length (filter (\<lambda>xx. in_pair v xx) (e # es))) vs)
        = sum_list (map (\<lambda>v. (if in_pair v e then 1 else 0) + length (filter (\<lambda>xx. in_pair v xx) es)) vs)"
    by (intro arg_cong [where f = sum_list] map_cong) simp_all
  also have "\<dots> = sum_list (map (\<lambda>v. if in_pair v e then 1 else 0) vs)
                   + sum_list (map (\<lambda>v. length (filter (\<lambda>xx. in_pair v xx) es)) vs)"
    by (simp add: sum_list_addf)
  also have "sum_list (map (\<lambda>v. if in_pair v e then 1 else 0) vs) = length (filter (\<lambda>v. in_pair v e) vs)"
    by (simp add: length_filter_sum)
  also have "length (filter (\<lambda>v. in_pair v e) vs) = 2"
    unfolding in_pair_def using Cons.prems assms(1) by (intro two_members) auto
  finally show ?case using Cons.IH Cons.prems by simp
qed

lemma Graph1_degree_sum:
  assumes "distinct (vertices g)" "Graph1_inv g" "loop_free (edges g)"
  shows "sum_list (map (Graph1_degree g) (vertices g)) = 2 * length (edges g)"
    and "sum_list (map snd (Graph1_degreeFn g)) = 2 * length (edges g)"
proof -
  have h: "\<forall>e \<in> set (edges g). fst e \<in> set (vertices g) \<and> snd e \<in> set (vertices g) \<and> fst e \<noteq> snd e"
    using assms(2,3) by (auto simp: Graph1_inv_iff loop_free_def list_all_iff)
  show s: "sum_list (map (Graph1_degree g) (vertices g)) = 2 * length (edges g)"
  proof -
    have "Graph1_degree g = (\<lambda>v. length (filter (\<lambda>xx. in_pair v xx) (edges g)))"
      by (simp add: fun_eq_iff Graph1_degree_def)
    then show ?thesis using sum_degree_list [OF assms(1) h] by metis
  qed
  have "Graph1_degreeFn g = map (\<lambda>v. (v, Graph1_degree g v)) (vertices g)"
    unfolding Graph1_degreeFn_def using assms(1)
    by (intro dict_of_distinct) (simp add: comp_def)
  then show "sum_list (map snd (Graph1_degreeFn g)) = 2 * length (edges g)"
    using s by (simp add: comp_def)
qed

subsection \<open>Degrees in a Graph2\<close>

lemma nbrs_nonempty_key: "v \<in> set (nbrs d u) \<Longrightarrow> u \<in> set (map fst d)"
  using map_of_eq_None_iff [of d u] by (auto simp: nbrs_def split: option.splits)

lemma Graph2_sym_iff:
  "Graph2_sym g \<longleftrightarrow> (\<forall>u v. count_list (nbrs (graph g) u) v = count_list (nbrs (graph g) v) u)"
proof
  assume s: "Graph2_sym g"
  let ?d = "graph g"
  have direct: "count_list (nbrs ?d u) v = count_list (nbrs ?d v) u" if "v \<in> set (nbrs ?d u)" for u v
    using s that nbrs_nonempty_key [OF that] by (auto simp: Graph2_sym_def list_all_iff)
  show "\<forall>u v. count_list (nbrs ?d u) v = count_list (nbrs ?d v) u"
  proof (intro allI)
    fix u v
    show "count_list (nbrs ?d u) v = count_list (nbrs ?d v) u"
    proof (cases "v \<in> set (nbrs ?d u)")
      case True
      then show ?thesis by (rule direct)
    next
      case False
      then have z: "count_list (nbrs ?d u) v = 0" by (simp add: count_list_0_iff)
      show ?thesis
      proof (cases "u \<in> set (nbrs ?d v)")
        case True
        from direct [OF True] z show ?thesis by simp
      next
        case False
        then show ?thesis using z by (simp add: count_list_0_iff)
      qed
    qed
  qed
next
  assume "\<forall>u v. count_list (nbrs (graph g) u) v = count_list (nbrs (graph g) v) u"
  then show "Graph2_sym g" by (simp add: Graph2_sym_def list_all_iff)
qed

lemma Graph2_init_sym: "Graph2_init vs es = Inr g \<Longrightarrow> Graph2_sym g"
  unfolding Graph2_sym_iff by (simp add: Graph2_init_nbrs_count)

lemma Graph2_init_distinct: "Graph2_init vs es = Inr g \<Longrightarrow> distinct (map fst (graph g))"
proof -
  assume "Graph2_init vs es = Inr g"
  then have "init_edges es (dict_of (map (\<lambda>v. (v, [])) vs)) = Inr (graph g)"
    by (auto simp: Graph2_init_def split: sum.splits)
  from init_edges_keys [OF this] show ?thesis by (simp add: distinct_dict_of)
qed

lemma sym_closed:
  assumes "Graph2_sym g" "v \<in> set (nbrs (graph g) u)"
  shows "v \<in> set (map fst (graph g))"
proof -
  from assms(2) have "count_list (nbrs (graph g) u) v \<noteq> 0" by (simp add: count_list_0_iff)
  with assms(1) have "count_list (nbrs (graph g) v) u \<noteq> 0" by (simp add: Graph2_sym_iff)
  then have "u \<in> set (nbrs (graph g) v)" by (simp add: count_list_0_iff)
  then show ?thesis by (rule nbrs_nonempty_key)
qed

lemma degree_pairs_keys:
  "set vs \<subseteq> set (map fst (graph g)) \<Longrightarrow>
   degree_pairs g vs = Inr (map (\<lambda>u. (u, length (nbrs (graph g) u))) vs)"
proof (induction vs)
  case Nil
  show ?case by simp
next
  case (Cons v vs)
  then have "map_of (graph g) v \<noteq> None" by (simp add: map_of_eq_None_iff)
  then have "Graph2_degree g v = Inr (length (nbrs (graph g) v))"
    by (auto simp: Graph2_degree_def nbrs_def)
  with Cons show ?case by simp
qed

lemma Graph2_degreeFn_distinct:
  assumes "distinct (map fst (graph g))"
  shows "Graph2_degreeFn g = Inr (map (\<lambda>u. (u, length (nbrs (graph g) u))) (map fst (graph g)))"
proof -
  have "dict_of (map (\<lambda>u. (u, length (nbrs (graph g) u))) (map fst (graph g)))
        = map (\<lambda>u. (u, length (nbrs (graph g) u))) (map fst (graph g))"
    using assms by (intro dict_of_distinct) (simp add: comp_def)
  then show ?thesis by (simp add: Graph2_degreeFn_def degree_pairs_keys)
qed

lemma length_Graph2_edges:
  "length (Graph2_edges g)
   = sum_list (map (\<lambda>u. length (filter (\<lambda>v. u < v) (nbrs (graph g) u))) (map fst (graph g)))"
proof -
  have h: "length (case map_of (graph g) u of None \<Rightarrow> []
                | Some ns \<Rightarrow> map (\<lambda>v. (u, v)) (filter (\<lambda>v. u < v) ns))
        = length (filter (\<lambda>v. u < v) (nbrs (graph g) u))" for u
    by (auto simp: nbrs_def split: option.splits)
  show ?thesis
    by (simp add: Graph2_edges_def length_concat comp_def h)
qed

lemma length_filter_count:
  assumes "set ns \<subseteq> K" "finite K"
  shows "length (filter P ns) = (\<Sum>v \<in> K. if P v then count_list ns v else 0)"
proof -
  have "set (filter P ns) \<subseteq> K" using assms(1) by auto
  from sum_count_set [OF this assms(2)]
  have "length (filter P ns) = (\<Sum>v \<in> K. count_list (filter P ns) v)" by simp
  also have "\<dots> = (\<Sum>v \<in> K. if P v then count_list ns v else 0)"
  proof (rule sum.cong [OF refl])
    fix v
    show "count_list (filter P ns) v = (if P v then count_list ns v else 0)"
      by (induction ns) auto
  qed
  finally show ?thesis .
qed

lemma Graph2_degree_sum_keys:
  assumes dist: "distinct (map fst (graph g))" and sym: "Graph2_sym g" and nl: "Graph2_loop_free g"
  shows "sum_list (map (\<lambda>u. length (nbrs (graph g) u)) (map fst (graph g)))
         = 2 * length (Graph2_edges g)"
proof -
  let ?d = "graph g"
  let ?K = "set (map fst ?d)"
  let ?c = "\<lambda>u v. count_list (nbrs ?d u) v"
  have sub: "set (nbrs ?d u) \<subseteq> ?K" for u using sym_closed [OF sym] by blast
  have csym: "?c u v = ?c v u" for u v using sym by (simp add: Graph2_sym_iff)
  have cloop: "?c u u = 0" for u
  proof (cases "u \<in> ?K")
    case True
    with nl have "\<not> Graph2_hasEdge g u u" by (auto simp: Graph2_loop_free_def list_all_iff)
    then show ?thesis by (simp add: Graph2_hasEdge_nbrs count_list_0_iff)
  next
    case False
    then have "nbrs ?d u = []" using nbrs_nonempty_key [of _ ?d u] by (cases "nbrs ?d u") auto
    then show ?thesis by simp
  qed
  have len: "length (nbrs ?d u) = (\<Sum>v \<in> ?K. ?c u v)" for u
    using sum_count_set [OF sub [of u]] by simp
  have lt: "length (filter (\<lambda>v. u < v) (nbrs ?d u)) = (\<Sum>v \<in> ?K. if u < v then ?c u v else 0)" for u
    by (rule length_filter_count [OF sub]) simp
  have split: "?c u v = (if u < v then ?c u v else 0) + (if v < u then ?c v u else 0)" for u v
    using cloop [of u] csym [of u v] by (cases "u < v"; cases "v < u"; cases "u = v") auto
  have "sum_list (map (\<lambda>u. length (nbrs ?d u)) (map fst ?d)) = (\<Sum>u \<in> ?K. length (nbrs ?d u))"
    by (rule sum_list_distinct_conv_sum_set [OF dist])
  also have "\<dots> = (\<Sum>u \<in> ?K. \<Sum>v \<in> ?K. ?c u v)" by (simp add: len)
  also have "\<dots> = (\<Sum>u \<in> ?K. \<Sum>v \<in> ?K. (if u < v then ?c u v else 0) + (if v < u then ?c v u else 0))"
    using split by (intro sum.cong refl) 
  also have "\<dots> = (\<Sum>u \<in> ?K. \<Sum>v \<in> ?K. if u < v then ?c u v else 0)
                 + (\<Sum>u \<in> ?K. \<Sum>v \<in> ?K. if v < u then ?c v u else 0)"
    by (simp add: sum.distrib)
  also have "(\<Sum>u \<in> ?K. \<Sum>v \<in> ?K. if v < u then ?c v u else 0)
             = (\<Sum>v \<in> ?K. \<Sum>u \<in> ?K. if v < u then ?c v u else 0)"
    by (rule sum.swap)
  finally have "sum_list (map (\<lambda>u. length (nbrs ?d u)) (map fst ?d))
                = 2 * (\<Sum>u \<in> ?K. \<Sum>v \<in> ?K. if u < v then ?c u v else 0)"
    by simp
  also have "(\<Sum>u \<in> ?K. \<Sum>v \<in> ?K. if u < v then ?c u v else 0)
             = (\<Sum>u \<in> ?K. length (filter (\<lambda>v. u < v) (nbrs ?d u)))"
    by (simp add: lt)
  also have "\<dots> = length (Graph2_edges g)"
    unfolding length_Graph2_edges by (rule sum_list_distinct_conv_sum_set [OF dist, symmetric])
  finally show ?thesis .
qed

lemma Graph2_init_loop_free:
  assumes "Graph2_init vs es = Inr g" "loop_free es"
  shows "Graph2_loop_free g"
  using assms(2) Graph2_init_hasEdge [OF assms(1)]
  by (auto simp: Graph2_loop_free_def loop_free_def list_all_iff)

text \<open>
  Claim C6. The degrees of all vertices should add up to twice the number of distinct
  edges, in every graph. The constructors keep an edge that is given twice, and the
  degree counts it twice: on vertices \<open>[0, 1]\<close> and edges \<open>[(0, 1), (0, 1)]\<close> the degrees
  add up to 4 and there is one distinct edge. A self-loop counts once in each degree
  it touches: after \<open>addEdge(1, 1)\<close> on the empty Graph2 the degrees add up to 1 and the
  \<open>edges\<close> property is empty.
\<close>

theorem degree_sum_counterexample:
  "sum_list (map (Graph1_degree (Graph1_init [0, 1] [(0, 1), (0, 1)]))
      (vertices (Graph1_init [0, 1] [(0, 1), (0, 1)]))) = 4
   \<and> 2 * card (set (edges (Graph1_init [0, 1] [(0, 1), (0, 1)]))) = 2
   \<and> snd (Graph2_addEdge 1 1 \<lparr>graph = []\<rparr>) = \<lparr>graph = [(1, [1])]\<rparr>
   \<and> Graph2_degreeFn \<lparr>graph = [(1, [1])]\<rparr> = Inr [(1, 1)]
   \<and> Graph2_edges \<lparr>graph = [(1, [1])]\<rparr> = []"
  by (simp add: Graph1_init_def norm_edge_def Graph1_degree_def in_pair_def
      Graph2_addEdge_def Graph2_hasEdge_def Graph2_hasVertex_def Graph2_degreeFn_def
      Graph2_degree_def dict_of_def Graph2_edges_def)

text \<open>
  Claim C6 as amended. In a Graph1 whose vertex list has no repetition, whose edges
  join vertices of the graph and are no self-loops, the degrees of the vertices (and
  the values of \<open>degreeFn()\<close>) add up to twice the length of the edge list, which is
  twice the number of distinct edges when no edge is repeated. In a Graph2 with
  symmetric adjacency lists and no self-loop, \<open>degreeFn()\<close> returns and its values add
  up to twice the length of the \<open>edges\<close> property, which is twice the number of distinct
  edges when no edge is repeated; the constructor builds such a graph from edges that
  are no self-loops.
\<close>

theorem degree_sum:
  "(distinct (vertices g1) \<and> Graph1_inv g1 \<and> loop_free (edges g1) \<longrightarrow>
      sum_list (map (Graph1_degree g1) (vertices g1)) = 2 * length (edges g1)
      \<and> sum_list (map snd (Graph1_degreeFn g1)) = 2 * length (edges g1)
      \<and> (distinct (edges g1) \<longrightarrow>
           sum_list (map (Graph1_degree g1) (vertices g1)) = 2 * card (set (edges g1))))
   \<and> (distinct (map fst (graph g2)) \<and> Graph2_sym g2 \<and> Graph2_loop_free g2 \<longrightarrow>
        (\<exists>fn. Graph2_degreeFn g2 = Inr fn
           \<and> sum_list (map snd fn) = 2 * length (Graph2_edges g2)
           \<and> (distinct (Graph2_edges g2) \<longrightarrow>
                sum_list (map snd fn) = 2 * card (set (Graph2_edges g2)))))
   \<and> (Graph2_init vs es = Inr g3 \<and> loop_free es \<longrightarrow>
        (\<exists>fn. Graph2_degreeFn g3 = Inr fn
           \<and> sum_list (map snd fn) = 2 * length (Graph2_edges g3)))"
proof -
  have two: "\<exists>fn. Graph2_degreeFn g = Inr fn
           \<and> sum_list (map snd fn) = 2 * length (Graph2_edges g)
           \<and> (distinct (Graph2_edges g) \<longrightarrow> sum_list (map snd fn) = 2 * card (set (Graph2_edges g)))"
    if "distinct (map fst (graph g))" "Graph2_sym g" "Graph2_loop_free g" for g
    using Graph2_degree_sum_keys [OF that] Graph2_degreeFn_distinct [OF that(1)]
    by (simp add: comp_def distinct_card)
  have three: "Graph2_init vs es = Inr g3 \<and> loop_free es \<longrightarrow>
        (\<exists>fn. Graph2_degreeFn g3 = Inr fn
           \<and> sum_list (map snd fn) = 2 * length (Graph2_edges g3))"
    using two [of g3] Graph2_init_distinct [of vs es g3] Graph2_init_sym [of vs es g3]
      Graph2_init_loop_free [of vs es g3] by blast
  show ?thesis
    using Graph1_degree_sum [of g1] two [of g2] three
    by (simp add: distinct_card)
qed

theorem degree_sum_witness:
  "distinct (vertices \<lparr>vertices = [1, 2, 3], edges = [(1, 2), (2, 3)]\<rparr>)
   \<and> Graph1_inv \<lparr>vertices = [1, 2, 3], edges = [(1, 2), (2, 3)]\<rparr>
   \<and> loop_free (edges \<lparr>vertices = [1, 2, 3], edges = [(1, 2), (2, 3)]\<rparr>)
   \<and> distinct (edges \<lparr>vertices = [1, 2, 3], edges = [(1, 2), (2, 3)]\<rparr>)
   \<and> sum_list (map (Graph1_degree \<lparr>vertices = [1, 2, 3], edges = [(1, 2), (2, 3)]\<rparr>)
        (vertices \<lparr>vertices = [1, 2, 3], edges = [(1, 2), (2, 3)]\<rparr>)) = 4
   \<and> sum_list (map snd (Graph1_degreeFn \<lparr>vertices = [1, 2, 3], edges = [(1, 2), (2, 3)]\<rparr>)) = 4
   \<and> 2 * card (set (edges \<lparr>vertices = [1, 2, 3], edges = [(1, 2), (2, 3)]\<rparr>)) = 4
   \<and> distinct (map fst (graph \<lparr>graph = [(1, [2]), (2, [1, 3]), (3, [2])]\<rparr>))
   \<and> Graph2_sym \<lparr>graph = [(1, [2]), (2, [1, 3]), (3, [2])]\<rparr>
   \<and> Graph2_loop_free \<lparr>graph = [(1, [2]), (2, [1, 3]), (3, [2])]\<rparr>
   \<and> distinct (Graph2_edges \<lparr>graph = [(1, [2]), (2, [1, 3]), (3, [2])]\<rparr>)
   \<and> Graph2_degreeFn \<lparr>graph = [(1, [2]), (2, [1, 3]), (3, [2])]\<rparr> = Inr [(1, 1), (2, 2), (3, 1)]
   \<and> 2 * length (Graph2_edges \<lparr>graph = [(1, [2]), (2, [1, 3]), (3, [2])]\<rparr>) = 4
   \<and> 2 * card (set (Graph2_edges \<lparr>graph = [(1, [2]), (2, [1, 3]), (3, [2])]\<rparr>)) = 4
   \<and> Graph2_init [1, 2, 3] [(1, 2), (3, 2)] = Inr \<lparr>graph = [(1, [2]), (2, [1, 3]), (3, [2])]\<rparr>
   \<and> loop_free [(1, 2), (3, 2)]"
proof -
  let ?g1 = "\<lparr>vertices = [1, 2, 3], edges = [(1, 2), (2, 3)]\<rparr>"
  let ?g2 = "\<lparr>graph = [(1, [2]), (2, [1, 3]), (3, [2])]\<rparr>"
  have a: "distinct (vertices ?g1)" "Graph1_inv ?g1" "loop_free (edges ?g1)"
    "distinct (edges ?g1)"
    by (simp_all add: Graph1_inv_def Graph1_hasVertex_def loop_free_def)
  have b: "distinct (map fst (graph ?g2))" "Graph2_sym ?g2" "Graph2_loop_free ?g2"
    by (simp_all add: Graph2_sym_def nbrs_def Graph2_loop_free_def Graph2_hasEdge_def)
  have c: "Graph2_init [1, 2, 3] [(1, 2), (3, 2)] = Inr ?g2" "loop_free [(1, 2), (3, 2)]"
    by (simp_all add: Graph2_init_def dict_of_def dict_append_def loop_free_def)
  have d: "Graph2_edges ?g2 = [(1, 2), (2, 3)]"
    by (simp add: Graph2_edges_def)
  have e: "Graph2_degreeFn ?g2 = Inr [(1, 1), (2, 2), (3, 1)]"
    by (simp add: Graph2_degreeFn_def Graph2_degree_def dict_of_def)
  show ?thesis
    using degree_sum [of ?g1 ?g2 "[1, 2, 3]" "[(1, 2), (3, 2)]" ?g2] a b c d e
    by simp
qed

section \<open>collapseEdge\<close>

lemma set_collapse_edges:
  "set (collapse_edges E a b)
   = {(x, y). (x, y) \<in> set E \<and> x \<noteq> b \<and> y \<noteq> b}
     \<union> {(x, a) | x. (x, b) \<in> set E \<and> x \<noteq> a}
     \<union> {(a, y) | y. (b, y) \<in> set E \<and> a \<noteq> y}"
  by (auto simp: collapse_edges_def)

lemma hasEdge_normal:
  assumes "Graph1_normal g"
  shows "Graph1_hasEdge g u v \<longleftrightarrow> (u, v) \<in> set (edges g) \<or> (v, u) \<in> set (edges g)"
proof -
  have n: "\<And>x y. (x, y) \<in> set (edges g) \<Longrightarrow> x \<le> y"
    using assms by (auto simp: Graph1_normal_def list_all_iff)
  show ?thesis
  proof (cases "u \<le> v")
    case True
    then show ?thesis using n [of v u] by (auto simp: Graph1_hasEdge_def min_def max_def)
  next
    case False
    then show ?thesis using n [of u v] by (auto simp: Graph1_hasEdge_def min_def max_def)
  qed
qed

lemma hasEdge_init:
  "Graph1_hasEdge (Graph1_init vs es) u v \<longleftrightarrow> (u, v) \<in> set es \<or> (v, u) \<in> set es"
proof -
  have "Graph1_normal (Graph1_init vs es)"
    by (auto simp: Graph1_normal_def Graph1_init_def list_all_iff norm_edge_def)
  moreover have "(p, q) \<in> set (map norm_edge es) \<or> (q, p) \<in> set (map norm_edge es)
        \<longleftrightarrow> (p, q) \<in> set es \<or> (q, p) \<in> set es" for p q
    by (auto simp: norm_edge_def min_def max_def image_iff split: if_splits) force+
  ultimately show ?thesis
    by (simp add: hasEdge_normal Graph1_init_def)
qed

lemma adj_collapse_edges:
  assumes "(b, b) \<notin> set E" "a \<noteq> b"
  shows "((u, v) \<in> set (collapse_edges E a b) \<or> (v, u) \<in> set (collapse_edges E a b))
         \<longleftrightarrow> collapsed_adjacent (\<lambda>x y. (x, y) \<in> set E \<or> (y, x) \<in> set E) a b u v"
  unfolding set_collapse_edges collapsed_adjacent_def using assms by auto

lemma Graph1_collapseEdge_present:
  assumes dist: "distinct (vertices g)" and inv: "Graph1_inv g" and norm: "Graph1_normal g"
    and ab: "Graph1_hasEdge g a b" and nl: "\<not> Graph1_hasEdge g b b"
  shows "\<exists>r g'. Graph1_collapseEdge g a b = Inr (r, g')
           \<and> (\<forall>x. Graph1_hasVertex r x \<longleftrightarrow> Graph1_hasVertex g x \<and> x \<noteq> b)
           \<and> (\<forall>u v. Graph1_hasEdge r u v \<longleftrightarrow> collapsed_adjacent (Graph1_hasEdge g) a b u v)"
proof -
  let ?r = "Graph1_init (remove1 b (vertices g)) (collapse_edges (edges g) a b)"
  from ab nl have neq: "a \<noteq> b" by auto
  from nl have nbb: "(b, b) \<notin> set (edges g)" by (simp add: Graph1_hasEdge_def)
  from ab inv have bv: "b \<in> set (vertices g)"
    by (auto simp: Graph1_inv_iff Graph1_hasEdge_def min_def max_def split: if_splits)
  have c: "Graph1_collapseEdge g a b = Inr (?r, g\<lparr>vertices := remove1 b (vertices g)\<rparr>)"
    using ab bv by (simp add: Graph1_collapseEdge_def Let_def)
  have v: "Graph1_hasVertex ?r x \<longleftrightarrow> Graph1_hasVertex g x \<and> x \<noteq> b" for x
    using dist by (auto simp: Graph1_hasVertex_def Graph1_init_def)
  have adj: "Graph1_hasEdge g = (\<lambda>x y. (x, y) \<in> set (edges g) \<or> (y, x) \<in> set (edges g))"
    by (simp add: fun_eq_iff hasEdge_normal [OF norm])
  have e: "Graph1_hasEdge ?r u v \<longleftrightarrow> collapsed_adjacent (Graph1_hasEdge g) a b u v" for u v
    unfolding hasEdge_init adj by (rule adj_collapse_edges [OF nbb neq])
  from c v e show ?thesis by blast
qed

lemma Graph1_collapseEdge_absent:
  "\<not> Graph1_hasEdge g a b \<Longrightarrow> Graph1_collapseEdge g a b = Inr (g, g)"
  by (simp add: Graph1_collapseEdge_def)

lemma Graph2_collapseEdge_absent:
  "\<not> Graph2_hasEdge g a b \<Longrightarrow> Graph2_collapseEdge g a b = Inr g"
  by (simp add: Graph2_collapseEdge_def)

lemma Graph2_hasEdge_sym: "Graph2_sym g \<Longrightarrow> Graph2_hasEdge g u v \<longleftrightarrow> Graph2_hasEdge g v u"
proof -
  assume "Graph2_sym g"
  then have "count_list (nbrs (graph g) u) v = count_list (nbrs (graph g) v) u"
    by (simp add: Graph2_sym_iff)
  then show ?thesis
    unfolding Graph2_hasEdge_nbrs by (metis count_list_0_iff)
qed

lemma Graph2_loop_free_iff:
  "Graph2_loop_free g \<longleftrightarrow> (\<forall>u. \<not> Graph2_hasEdge g u u)"
proof -
  have "Graph2_hasEdge g u u \<Longrightarrow> u \<in> set (map fst (graph g))" for u
    unfolding Graph2_hasEdge_nbrs by (rule nbrs_nonempty_key)
  then show ?thesis
    by (auto simp: Graph2_loop_free_def list_all_iff)
qed

lemma Graph2_edges_adj:
  assumes "Graph2_sym g" "Graph2_loop_free g"
  shows "(u, v) \<in> set (Graph2_edges g) \<or> (v, u) \<in> set (Graph2_edges g) \<longleftrightarrow> Graph2_hasEdge g u v"
proof -
  have e: "(x, y) \<in> set (Graph2_edges g) \<longleftrightarrow> Graph2_hasEdge g x y \<and> x < y" for x y
    by (auto simp: Graph2_edges_iff Graph2_hasEdge_def split: option.splits)
  have "u \<noteq> v" if "Graph2_hasEdge g u v"
    using that assms(2) by (auto simp: Graph2_loop_free_iff)
  then show ?thesis
    unfolding e using Graph2_hasEdge_sym [OF assms(1), of u v] by auto
qed

lemma Graph2_collapseEdge_present:
  assumes dist: "distinct (map fst (graph g))" and sym: "Graph2_sym g" and nl: "Graph2_loop_free g"
    and ab: "Graph2_hasEdge g a b"
  shows "\<exists>r. Graph2_collapseEdge g a b = Inr r
           \<and> (\<forall>x. Graph2_hasVertex r x \<longleftrightarrow> Graph2_hasVertex g x \<and> x \<noteq> b)
           \<and> (\<forall>u v. Graph2_hasEdge r u v \<longleftrightarrow> collapsed_adjacent (Graph2_hasEdge g) a b u v)"
proof -
  let ?vs = "remove1 b (Graph2_vertices g)"
  let ?E = "Graph2_edges g"
  let ?es = "collapse_edges ?E a b"
  from ab nl have neq: "a \<noteq> b" by (auto simp: Graph2_loop_free_iff)
  have nbb: "(b, b) \<notin> set ?E" by (simp add: Graph2_edges_iff)
  have key: "x \<in> set (Graph2_vertices g)" if "Graph2_hasEdge g x y" for x y
    using that nbrs_nonempty_key [of y "graph g" x]
    by (simp add: Graph2_hasEdge_nbrs Graph2_vertices_def)
  have bk: "b \<in> set (Graph2_vertices g)"
    using key [of b a] ab Graph2_hasEdge_sym [OF sym] by blast
  have setvs: "set ?vs = set (Graph2_vertices g) - {b}"
    using dist by (simp add: Graph2_vertices_def)
  have adj: "(\<lambda>x y. (x, y) \<in> set ?E \<or> (y, x) \<in> set ?E) = Graph2_hasEdge g"
    by (simp add: fun_eq_iff Graph2_edges_adj [OF sym nl])
  have ce: "(u, v) \<in> set ?es \<or> (v, u) \<in> set ?es
            \<longleftrightarrow> collapsed_adjacent (Graph2_hasEdge g) a b u v" for u v
    using adj_collapse_edges [OF nbb neq, of u v] unfolding adj .
  have ends: "endpoints_among ?vs ?es"
    unfolding endpoints_among_iff
  proof
    fix e assume e: "e \<in> set ?es"
    obtain u v where uv: "e = (u, v)" by (cases e)
    with e ce [of u v] have ca: "collapsed_adjacent (Graph2_hasEdge g) a b u v" by simp
    then have "u \<noteq> b" "v \<noteq> b" by (simp_all add: collapsed_adjacent_def)
    moreover from ca have "u \<in> set (Graph2_vertices g) \<and> v \<in> set (Graph2_vertices g)"
      unfolding collapsed_adjacent_def
      using key ab Graph2_hasEdge_sym [OF sym] by blast
    ultimately show "fst e \<in> set ?vs \<and> snd e \<in> set ?vs"
      by (simp add: uv setvs)
  qed
  then obtain r where r: "Graph2_init ?vs ?es = Inr r"
    using Graph2_init_ok_iff by blast
  have c: "Graph2_collapseEdge g a b = Inr r"
    using ab bk r by (simp add: Graph2_collapseEdge_def Let_def)
  have v: "Graph2_hasVertex r x \<longleftrightarrow> Graph2_hasVertex g x \<and> x \<noteq> b" for x
    unfolding Graph2_init_hasVertex [OF r] setvs
    by (auto simp: Graph2_hasVertex_def Graph2_vertices_def)
  have e: "Graph2_hasEdge r u v \<longleftrightarrow> collapsed_adjacent (Graph2_hasEdge g) a b u v" for u v
    unfolding Graph2_init_hasEdge [OF r] by (rule ce)
  from c v e show ?thesis by blast
qed

text \<open>
  Claim C7. \<open>collapseEdge(g1, a, b)\<close> should return \<open>g1\<close> unchanged when the edge is
  absent, and otherwise a graph without vertex \<open>b\<close> in which the edges at \<open>b\<close> are rewired
  to \<open>a\<close>, those that would become the self-loop \<open>(a, a)\<close> being dropped.
  \<open>verts.remove(b)\<close> removes one occurrence: when the vertex list of a Graph1 has \<open>b\<close>
  twice, \<open>b\<close> is still a vertex of the result. A self-loop \<open>(b, b)\<close> passes the filter of
  the second and of the third comprehension and comes out as two edges between \<open>a\<close> and
  \<open>b\<close>, so the result has edges at the vertex that was removed.
\<close>

theorem collapseEdge_counterexample:
  "Graph1_hasEdge \<lparr>vertices = [1, 2, 2], edges = [(1, 2)]\<rparr> 1 2
   \<and> Graph1_collapseEdge \<lparr>vertices = [1, 2, 2], edges = [(1, 2)]\<rparr> 1 2
       = Inr (\<lparr>vertices = [1, 2], edges = []\<rparr>, \<lparr>vertices = [1, 2], edges = [(1, 2)]\<rparr>)
   \<and> Graph1_hasVertex \<lparr>vertices = [1, 2], edges = []\<rparr> 2
   \<and> Graph1_hasEdge \<lparr>vertices = [1, 2], edges = [(1, 2), (2, 2)]\<rparr> 1 2
   \<and> Graph1_collapseEdge \<lparr>vertices = [1, 2], edges = [(1, 2), (2, 2)]\<rparr> 1 2
       = Inr (\<lparr>vertices = [1], edges = [(1, 2), (1, 2)]\<rparr>,
              \<lparr>vertices = [1], edges = [(1, 2), (2, 2)]\<rparr>)
   \<and> Graph1_hasEdge \<lparr>vertices = [1], edges = [(1, 2), (1, 2)]\<rparr> 1 2"
  by (simp add: Graph1_collapseEdge_def Graph1_hasEdge_def collapse_edges_def
      Graph1_init_def norm_edge_def Graph1_hasVertex_def Let_def)

text \<open>
  Claim C7 as amended. Without the edge \<open>(a, b)\<close>, \<open>collapseEdge(g1, a, b)\<close> returns \<open>g1\<close>
  as it is. With the edge, on a graph that has no vertex twice, whose edges join
  vertices of the graph, and that has no self-loop at \<open>b\<close> (a Graph1 with its edges
  stored as \<open>(min, max)\<close>; a Graph2 with symmetric adjacency lists and no self-loop), it
  returns a graph whose vertices are those of \<open>g1\<close> but \<open>b\<close>, and in which \<open>u\<close> and \<open>v\<close> are
  adjacent exactly when neither is \<open>b\<close> and they were adjacent in \<open>g1\<close>, or one of them is
  \<open>a\<close> and the other, which is not \<open>a\<close>, was adjacent to \<open>b\<close>. On the vertices 1, 2, 3 with
  the edges \<open>(1, 2)\<close> and \<open>(2, 3)\<close>, collapsing \<open>(1, 2)\<close> gives the vertices 1, 3 and the edge
  \<open>(1, 3)\<close>.
\<close>

theorem collapseEdge_minor:
  "(\<not> Graph1_hasEdge g1 a b \<longrightarrow> Graph1_collapseEdge g1 a b = Inr (g1, g1))
   \<and> (\<not> Graph2_hasEdge g2 a b \<longrightarrow> Graph2_collapseEdge g2 a b = Inr g2)
   \<and> (distinct (vertices g1) \<and> Graph1_inv g1 \<and> Graph1_normal g1
        \<and> Graph1_hasEdge g1 a b \<and> \<not> Graph1_hasEdge g1 b b \<longrightarrow>
        (\<exists>r g'. Graph1_collapseEdge g1 a b = Inr (r, g')
           \<and> (\<forall>x. Graph1_hasVertex r x \<longleftrightarrow> Graph1_hasVertex g1 x \<and> x \<noteq> b)
           \<and> (\<forall>u v. Graph1_hasEdge r u v \<longleftrightarrow> collapsed_adjacent (Graph1_hasEdge g1) a b u v)))
   \<and> (distinct (map fst (graph g2)) \<and> Graph2_sym g2 \<and> Graph2_loop_free g2
        \<and> Graph2_hasEdge g2 a b \<longrightarrow>
        (\<exists>r. Graph2_collapseEdge g2 a b = Inr r
           \<and> (\<forall>x. Graph2_hasVertex r x \<longleftrightarrow> Graph2_hasVertex g2 x \<and> x \<noteq> b)
           \<and> (\<forall>u v. Graph2_hasEdge r u v \<longleftrightarrow> collapsed_adjacent (Graph2_hasEdge g2) a b u v)))"
  using Graph1_collapseEdge_absent [of g1 a b] Graph2_collapseEdge_absent [of g2 a b]
    Graph1_collapseEdge_present [of g1 a b] Graph2_collapseEdge_present [of g2 a b]
  by blast

theorem collapseEdge_minor_witness:
  "distinct (vertices \<lparr>vertices = [1, 2, 3], edges = [(1, 2), (2, 3)]\<rparr>)
   \<and> Graph1_inv \<lparr>vertices = [1, 2, 3], edges = [(1, 2), (2, 3)]\<rparr>
   \<and> Graph1_normal \<lparr>vertices = [1, 2, 3], edges = [(1, 2), (2, 3)]\<rparr>
   \<and> Graph1_hasEdge \<lparr>vertices = [1, 2, 3], edges = [(1, 2), (2, 3)]\<rparr> 1 2
   \<and> \<not> Graph1_hasEdge \<lparr>vertices = [1, 2, 3], edges = [(1, 2), (2, 3)]\<rparr> 2 2
   \<and> Graph1_collapseEdge \<lparr>vertices = [1, 2, 3], edges = [(1, 2), (2, 3)]\<rparr> 1 2
       = Inr (\<lparr>vertices = [1, 3], edges = [(1, 3)]\<rparr>,
              \<lparr>vertices = [1, 3], edges = [(1, 2), (2, 3)]\<rparr>)
   \<and> distinct (map fst (graph \<lparr>graph = [(1, [2]), (2, [1, 3]), (3, [2])]\<rparr>))
   \<and> Graph2_sym \<lparr>graph = [(1, [2]), (2, [1, 3]), (3, [2])]\<rparr>
   \<and> Graph2_loop_free \<lparr>graph = [(1, [2]), (2, [1, 3]), (3, [2])]\<rparr>
   \<and> Graph2_hasEdge \<lparr>graph = [(1, [2]), (2, [1, 3]), (3, [2])]\<rparr> 1 2
   \<and> Graph2_collapseEdge \<lparr>graph = [(1, [2]), (2, [1, 3]), (3, [2])]\<rparr> 1 2
       = Inr \<lparr>graph = [(1, [3]), (3, [1])]\<rparr>
   \<and> \<not> Graph1_hasEdge \<lparr>vertices = [1, 2, 3], edges = [(1, 2), (2, 3)]\<rparr> 1 3
   \<and> Graph1_collapseEdge \<lparr>vertices = [1, 2, 3], edges = [(1, 2), (2, 3)]\<rparr> 1 3
       = Inr (\<lparr>vertices = [1, 2, 3], edges = [(1, 2), (2, 3)]\<rparr>,
              \<lparr>vertices = [1, 2, 3], edges = [(1, 2), (2, 3)]\<rparr>)
   \<and> \<not> Graph2_hasEdge \<lparr>graph = [(1, [2]), (2, [1, 3]), (3, [2])]\<rparr> 1 3
   \<and> Graph2_collapseEdge \<lparr>graph = [(1, [2]), (2, [1, 3]), (3, [2])]\<rparr> 1 3
       = Inr \<lparr>graph = [(1, [2]), (2, [1, 3]), (3, [2])]\<rparr>"
proof -
  let ?g1 = "\<lparr>vertices = [1, 2, 3], edges = [(1, 2), (2, 3)]\<rparr>"
  let ?g2 = "\<lparr>graph = [(1, [2]), (2, [1, 3]), (3, [2])]\<rparr>"
  have a: "distinct (vertices ?g1)" "Graph1_inv ?g1" "Graph1_normal ?g1"
    "Graph1_hasEdge ?g1 1 2" "\<not> Graph1_hasEdge ?g1 2 2" "\<not> Graph1_hasEdge ?g1 1 3"
    by (simp_all add: Graph1_inv_def Graph1_hasVertex_def Graph1_normal_def Graph1_hasEdge_def)
  have b: "distinct (map fst (graph ?g2))" "Graph2_sym ?g2" "Graph2_loop_free ?g2"
    "Graph2_hasEdge ?g2 1 2" "\<not> Graph2_hasEdge ?g2 1 3"
    by (simp_all add: Graph2_sym_def nbrs_def Graph2_loop_free_def Graph2_hasEdge_def)
  have c: "Graph1_collapseEdge ?g1 1 2
       = Inr (\<lparr>vertices = [1, 3], edges = [(1, 3)]\<rparr>, \<lparr>vertices = [1, 3], edges = [(1, 2), (2, 3)]\<rparr>)"
    by (simp add: Graph1_collapseEdge_def Graph1_hasEdge_def collapse_edges_def
        Graph1_init_def norm_edge_def Let_def)
  have d: "Graph2_collapseEdge ?g2 1 2 = Inr \<lparr>graph = [(1, [3]), (3, [1])]\<rparr>"
    by (simp add: Graph2_collapseEdge_def Graph2_hasEdge_def Graph2_vertices_def
        Graph2_edges_def collapse_edges_def Graph2_init_def dict_of_def dict_append_def Let_def)
  show ?thesis
    using collapseEdge_minor [of ?g1 1 2 ?g2] collapseEdge_minor [of ?g1 1 3 ?g2] a b c d
    by simp
qed

section \<open>fromFile\<close>

lemma add_ends_props:
  "distinct verts \<Longrightarrow> distinct (add_ends verts es)"
  "set (add_ends verts es) = set verts \<union> fst ` set es \<union> snd ` set es"
proof -
  show "distinct verts \<Longrightarrow> distinct (add_ends verts es)"
    unfolding add_ends_def by (induction es arbitrary: verts) (auto simp: set_add_def)
  show "set (add_ends verts es) = set verts \<union> fst ` set es \<union> snd ` set es"
    unfolding add_ends_def by (induction es arbitrary: verts) (auto simp: set_add_def)
qed

lemma read_lines_readable:
  "list_all readable_line lines \<Longrightarrow>
   read_lines lines (verts, es)
   = Inr (add_ends verts (map line_edge (filter edge_line lines)),
          es @ map line_edge (filter edge_line lines))"
proof (induction lines arbitrary: verts es)
  case Nil
  show ?case by (simp add: add_ends_def)
next
  case (Cons ll rest)
  then have rest: "list_all readable_line rest" by simp
  show ?case
  proof (cases "edge_line ll")
    case False
    then show ?thesis
      using Cons.IH [OF rest, of verts es] by (simp add: edge_line_def pieces_def)
  next
    case True
    with Cons.prems obtain a b where
      a: "int_of_str (pieces ll ! 0) = Some a" and b: "int_of_str (pieces ll ! 1) = Some b"
      by (auto simp: readable_line_def)
    then have le: "line_edge ll = (a, b)" by (simp add: line_edge_def)
    have "read_lines (ll # rest) (verts, es)
          = read_lines rest (set_add b (set_add a verts), es @ [(a, b)])"
      using True a b by (simp add: edge_line_def pieces_def Let_def)
    then show ?thesis
      using Cons.IH [OF rest, of "set_add b (set_add a verts)" "es @ [(a, b)]"] True le
      by (simp add: add_ends_def)
  qed
qed

text \<open>
  Claim C4. \<open>fromFile\<close> should never fail its caller: an unreadable file gives the empty
  graph, a line that is not two whitespace-separated integers is ignored, every line
  that is contributes an edge, and malformed input gives the empty graph. A line of two
  pieces that are no integers, such as \<open>a b\<close>, reaches \<open>int\<close>, whose ValueError the
  method does not catch (it catches IOError only). And the line is split at every
  single space, so the two integers of \<open>1  2\<close>, with two spaces between them, are three
  pieces and the line is ignored.
\<close>

theorem fromFile_counterexample:
  "fromFile Graph1_init (Some [''a b'']) = Inl ValueError
   \<and> fromFile Graph2_init (Some [''1 2'', ''3 x'']) = Inl ValueError
   \<and> fromFile Graph1_init (Some [''1  2'']) = Inr \<lparr>vertices = [], edges = []\<rparr>"
  by (simp add: fromFile_def strip_def is_space_def split_on_def int_of_str_def
      nat_of_digits_def digit_of_def set_add_def Graph1_init_def)

text \<open>
  Claim C4 as amended. For an unreadable file \<open>fromFile\<close> returns the empty graph. For a
  readable file in which every line of exactly two pieces (the line stripped of
  surrounding whitespace and split at every single space) has two pieces that \<open>int\<close>
  accepts, it returns the graph built from one edge per such line, in the order of the
  lines, and from the endpoints of these edges as vertices, each once; every other line
  is ignored; the constructor of Graph2 does not raise on these lists. A file without a
  line of two pieces gives the empty graph.
\<close>

theorem fromFile_result:
  "fromFile cls None = Inr (cls [] [])
   \<and> (list_all readable_line lines \<longrightarrow>
        (\<exists>verts. fromFile cls (Some lines)
                    = Inr (cls verts (map line_edge (filter edge_line lines)))
           \<and> distinct verts
           \<and> set verts = fst ` set (map line_edge (filter edge_line lines))
                         \<union> snd ` set (map line_edge (filter edge_line lines)))
        \<and> (\<exists>g. fromFile Graph2_init (Some lines) = Inr (Inr g)))
   \<and> (list_all (\<lambda>ll. \<not> edge_line ll) lines \<longrightarrow> fromFile cls (Some lines) = Inr (cls [] []))"
proof -
  let ?es = "map line_edge (filter edge_line lines)"
  have r: "fromFile c (Some lines) = Inr (c (add_ends [] ?es) ?es)"
    if "list_all readable_line lines" for c :: "int list \<Rightarrow> edge list \<Rightarrow> 'c"
    using read_lines_readable [OF that, of "[]" "[]"] by (simp add: fromFile_def)
  have p: "distinct (add_ends [] ?es)" "set (add_ends [] ?es) = fst ` set ?es \<union> snd ` set ?es"
    using add_ends_props [of "[]" ?es] by simp_all
  have g2: "\<exists>g. fromFile Graph2_init (Some lines) = Inr (Inr g)"
    if "list_all readable_line lines"
  proof -
    have "endpoints_among (add_ends [] ?es) ?es"
      unfolding endpoints_among_iff p(2) by auto
    then obtain g where "Graph2_init (add_ends [] ?es) ?es = Inr g"
      using Graph2_init_ok_iff by blast
    then show ?thesis using r [OF that, of Graph2_init] by simp
  qed
  have none: "fromFile cls (Some lines) = Inr (cls [] [])"
    if "list_all (\<lambda>ll. \<not> edge_line ll) lines"
  proof -
    from that have f: "filter edge_line lines = []" by (simp add: list_all_iff filter_empty_conv)
    from that have "list_all readable_line lines" by (simp add: list_all_iff readable_line_def)
    from r [OF this, of cls] show ?thesis by (simp add: f add_ends_def)
  qed
  show ?thesis
    using r [of cls] p g2 none by (auto simp: fromFile_def)
qed

theorem fromFile_result_witness:
  "list_all readable_line [''1 2'', ''# the edges'', '''', ''2  3'', '' -4 2 '']
   \<and> map line_edge (filter edge_line [''1 2'', ''# the edges'', '''', ''2  3'', '' -4 2 ''])
       = [(1, 2), (- 4, 2)]
   \<and> fromFile Graph1_init (Some [''1 2'', ''# the edges'', '''', ''2  3'', '' -4 2 ''])
       = Inr \<lparr>vertices = [1, 2, - 4], edges = [(1, 2), (- 4, 2)]\<rparr>
   \<and> fromFile Graph2_init (Some [''1 2'', ''# the edges'', '''', ''2  3'', '' -4 2 ''])
       = Inr (Inr \<lparr>graph = [(1, [2]), (2, [1, - 4]), (- 4, [2])]\<rparr>)
   \<and> list_all (\<lambda>ll. \<not> edge_line ll) [''# the edges'', ''1 2 3'']
   \<and> fromFile Graph1_init (Some [''# the edges'', ''1 2 3'']) = Inr \<lparr>vertices = [], edges = []\<rparr>"
proof -
  let ?ls = "[''1 2'', ''# the edges'', '''', ''2  3'', '' -4 2 '']"
  have a: "list_all readable_line ?ls"
    by (simp add: readable_line_def edge_line_def pieces_def strip_def is_space_def
        split_on_def int_of_str_def nat_of_digits_def digit_of_def)
  have b: "map line_edge (filter edge_line ?ls) = [(1, 2), (- 4, 2)]"
    by (simp add: line_edge_def edge_line_def pieces_def strip_def is_space_def
        split_on_def int_of_str_def nat_of_digits_def digit_of_def)
  have c: "list_all (\<lambda>ll. \<not> edge_line ll) [''# the edges'', ''1 2 3'']"
    by (simp add: edge_line_def pieces_def strip_def is_space_def split_on_def)
  have d: "fromFile Graph1_init (Some ?ls)
       = Inr \<lparr>vertices = [1, 2, - 4], edges = [(1, 2), (- 4, 2)]\<rparr>"
    by (simp add: fromFile_def strip_def is_space_def split_on_def int_of_str_def
        nat_of_digits_def digit_of_def set_add_def Graph1_init_def norm_edge_def)
  have e: "fromFile Graph2_init (Some ?ls)
       = Inr (Inr \<lparr>graph = [(1, [2]), (2, [1, - 4]), (- 4, [2])]\<rparr>)"
    by (simp add: fromFile_def strip_def is_space_def split_on_def int_of_str_def
        nat_of_digits_def digit_of_def set_add_def Graph2_init_def dict_of_def dict_append_def)
  show ?thesis
    using fromFile_result [of Graph1_init ?ls] 
      fromFile_result [of Graph1_init "[''# the edges'', ''1 2 3'']"] a b c d e
    by (simp add: Graph1_init_def)
qed

section \<open>copy\<close>

lemma at_Some_less: "at h r = Some ob \<Longrightarrow> r < length h"
  by (simp add: at_def split: if_splits)

lemma at_update: "at (h[i := x]) j = (if j < length h then Some (if i = j then x else h ! j) else None)"
  by (simp add: at_def)

lemma at_update_other: "i \<noteq> j \<Longrightarrow> at (h[i := x]) j = at h j"
  by (simp add: at_def)

lemma at_update_same: "i < length h \<Longrightarrow> at (h[i := x]) i = Some x"
  by (simp add: at_def)

lemma at_append: "at (h @ [ob]) j = (if j = length h then Some ob else at h j)"
  by (simp add: at_def nth_append)

lemma sep1_view:
  "sep1 h x y es \<Longrightarrow>
   (\<exists>vs es'. Graph1_view h x = Some \<lparr>vertices = vs, edges = es\<rparr>
       \<and> Graph1_view h y = Some \<lparr>vertices = vs, edges = es'\<rparr>)"
  by (auto simp: sep1_def Graph1_view_def)

lemma sep2_view:
  "sep2 h x y gr \<Longrightarrow> Graph2_view h x = Some \<lparr>graph = gr\<rparr> \<and> (\<exists>gr'. Graph2_view h y = Some \<lparr>graph = gr'\<rparr>)"
  by (auto simp: sep2_def Graph2_view_def)

lemma in_place1_sep1:
  assumes "sep1 h x y es"
  shows "sep1 (in_place1 f y h) x y es"
proof -
  from assms obtain v ex ey vs es' where
    x: "at h x = Some (Graph1Obj v ex)" and y: "at h y = Some (Graph1Obj v ey)" and
    ne: "ex \<noteq> ey" and v: "at h v = Some (IntList vs)" and
    ex: "at h ex = Some (EdgeList es)" and ey: "at h ey = Some (EdgeList es')"
    unfolding sep1_def by blast
  have d: "v \<noteq> x" "v \<noteq> y" "v \<noteq> ex" "v \<noteq> ey" "ey \<noteq> x" "ey \<noteq> y" "ex \<noteq> x" "ex \<noteq> y"
    using x y v ex ey by auto
  let ?g = "f \<lparr>vertices = vs, edges = es'\<rparr>"
  have h': "in_place1 f y h = (h[v := IntList (vertices ?g)])[ey := EdgeList (edges ?g)]"
    using y v ey by (simp add: in_place1_def Graph1_view_def Graph1_write_def)
  have lv: "v < length h" and ley: "ey < length h"
    using v ey by (auto dest: at_Some_less)
  show ?thesis
    unfolding sep1_def h'
    apply (rule exI [of _ v], rule exI [of _ ex], rule exI [of _ ey])
    apply (rule exI [of _ "vertices ?g"], rule exI [of _ "edges ?g"])
    using x y ne v ex ey d lv ley
    by (simp add: at_update_other at_update_same)
qed

lemma deleteVertex_at_sep1:
  assumes "sep1 h x y es"
  shows "sep1 (Graph1_deleteVertex_at a y h) x y es"
proof -
  from assms obtain v ex ey vs es' where
    x: "at h x = Some (Graph1Obj v ex)" and y: "at h y = Some (Graph1Obj v ey)" and
    ne: "ex \<noteq> ey" and v: "at h v = Some (IntList vs)" and
    ex: "at h ex = Some (EdgeList es)" and ey: "at h ey = Some (EdgeList es')"
    unfolding sep1_def by blast
  have d: "v \<noteq> x" "v \<noteq> y" "v \<noteq> ex" "v \<noteq> ey" "ey \<noteq> x" "ey \<noteq> y" "ex \<noteq> x" "ex \<noteq> y" "x \<noteq> y"
    using x y v ex ey ne by auto
  have l: "v < length h" "x < length h" "y < length h" "ex < length h" "ey < length h"
    using x y v ex ey by (auto dest: at_Some_less)
  show ?thesis
  proof (cases "a \<in> set vs")
    case False
    then have "Graph1_deleteVertex_at a y h = h"
      using y v ey by (simp add: Graph1_deleteVertex_at_def)
    with assms show ?thesis by simp
  next
    case True
    let ?new = "EdgeList (filter (\<lambda>ee. \<not> in_pair a ee) es')"
    have h': "Graph1_deleteVertex_at a y h
              = ((h[v := IntList (remove1 a vs)]) @ [?new])[y := Graph1Obj v (length h)]"
      using True y v ey by (simp add: Graph1_deleteVertex_at_def alloc_def)
    show ?thesis
      unfolding sep1_def h'
      apply (rule exI [of _ v], rule exI [of _ ex], rule exI [of _ "length h"])
      apply (rule exI [of _ "remove1 a vs"], rule exI [of _ "filter (\<lambda>ee. \<not> in_pair a ee) es'"])
      using x y ne v ex ey d l
      by (simp add: at_def nth_append nth_list_update)
  qed
qed

lemma Graph1_mutate_sep1: "sep1 h x y es \<Longrightarrow> sep1 (Graph1_mutate m y h) x y es"
  by (cases m) (simp_all add: in_place1_sep1 deleteVertex_at_sep1)

lemma Graph1_mutate_all_sep1:
  "sep1 h x y es \<Longrightarrow> sep1 (mutate_all Graph1_mutate ms y h) x y es"
  unfolding mutate_all_def
  by (induction ms arbitrary: h) (simp_all add: Graph1_mutate_sep1)

lemma Graph1_copy_sep1:
  assumes "Graph1_view h g = Some G" "Graph1_copy g h = Some (c, h1)"
  shows "sep1 h1 g c (edges G)" and "sep1 h1 c g (map norm_edge (edges G))"
proof -
  from assms(1) obtain v e where
    g: "at h g = Some (Graph1Obj v e)" and v: "at h v = Some (IntList (vertices G))" and
    e: "at h e = Some (EdgeList (edges G))"
    by (auto simp: Graph1_view_def split: option.splits pyobj.splits)
  have l: "g < length h" "v < length h" "e < length h"
    using g v e by (auto dest: at_Some_less)
  from assms(2) g e have c: "c = Suc (length h)"
    and h1: "h1 = (h @ [EdgeList (map norm_edge (edges G))]) @ [Graph1Obj v (length h)]"
    by (auto simp: Graph1_copy_def Graph1_init_at_def alloc_def)
  show "sep1 h1 g c (edges G)"
    unfolding sep1_def h1 c
    apply (rule exI [of _ v], rule exI [of _ e], rule exI [of _ "length h"])
    apply (rule exI [of _ "vertices G"], rule exI [of _ "map norm_edge (edges G)"])
    using g v e l by (simp add: at_def nth_append)
  show "sep1 h1 c g (map norm_edge (edges G))"
    unfolding sep1_def h1 c
    apply (rule exI [of _ v], rule exI [of _ "length h"], rule exI [of _ e])
    apply (rule exI [of _ "vertices G"], rule exI [of _ "edges G"])
    using g v e l by (simp add: at_def nth_append)
qed

lemma in_place2_sep2:
  assumes "sep2 h x y gr"
  shows "sep2 (in_place2 f y h) x y gr"
proof -
  from assms obtain dx dy gr' where
    x: "at h x = Some (Graph2Obj dx)" and y: "at h y = Some (Graph2Obj dy)" and
    ne: "dx \<noteq> dy" and dx: "at h dx = Some (AdjDict gr)" and dy: "at h dy = Some (AdjDict gr')"
    unfolding sep2_def by blast
  have d: "dy \<noteq> x" "dy \<noteq> y" using x y dy by auto
  have l: "dy < length h" using dy by (rule at_Some_less)
  have h': "in_place2 f y h = h[dy := AdjDict (graph (f \<lparr>graph = gr'\<rparr>))]"
    using y dy by (simp add: in_place2_def)
  show ?thesis
    unfolding sep2_def h'
    apply (rule exI [of _ dx], rule exI [of _ dy])
    apply (rule exI [of _ "graph (f \<lparr>graph = gr'\<rparr>)"])
    using x y ne dx dy d l by (simp add: at_update_other at_update_same)
qed

lemma Graph2_mutate_sep2: "sep2 h x y gr \<Longrightarrow> sep2 (Graph2_mutate m y h) x y gr"
  by (cases m) (simp_all add: in_place2_sep2)

lemma Graph2_mutate_all_sep2:
  "sep2 h x y gr \<Longrightarrow> sep2 (mutate_all Graph2_mutate ms y h) x y gr"
  unfolding mutate_all_def
  by (induction ms arbitrary: h) (simp_all add: Graph2_mutate_sep2)

lemma Graph2_copy_sep2:
  assumes "Graph2_view h g = Some G" "Graph2_copy g h = Some (Inr c, h1)"
  shows "\<exists>C. Graph2_init (Graph2_vertices G) (Graph2_edges G) = Inr C
           \<and> sep2 h1 g c (graph G) \<and> sep2 h1 c g (graph C)"
proof -
  from assms(1) obtain d where
    g: "at h g = Some (Graph2Obj d)" and d: "at h d = Some (AdjDict (graph G))"
    by (auto simp: Graph2_view_def split: option.splits pyobj.splits)
  have l: "g < length h" "d < length h"
    using g d by (auto dest: at_Some_less)
  let ?h2 = "(h @ [IntList (Graph2_vertices G)]) @ [EdgeList (Graph2_edges G)]"
  from assms have i: "Graph2_init_at (Graph2_vertices G) (Graph2_edges G) ?h2 = (Inr c, h1)"
    by (simp add: Graph2_copy_def alloc_def)
  then obtain C where C: "Graph2_init (Graph2_vertices G) (Graph2_edges G) = Inr C"
    by (auto simp: Graph2_init_at_def split: sum.splits)
  with i have c: "c = length h + 3"
    and h1: "h1 = (?h2 @ [AdjDict (graph C)]) @ [Graph2Obj (length h + 2)]"
    by (auto simp: Graph2_init_at_def alloc_def)
  have "sep2 h1 g c (graph G)"
    unfolding sep2_def h1 c
    apply (rule exI [of _ d], rule exI [of _ "length h + 2"], rule exI [of _ "graph C"])
    using g d l by (simp add: at_def nth_append)
  moreover have "sep2 h1 c g (graph C)"
    unfolding sep2_def h1 c
    apply (rule exI [of _ "length h + 2"], rule exI [of _ d], rule exI [of _ "graph G"])
    using g d l by (simp add: at_def nth_append)
  ultimately show ?thesis using C by blast
qed

text \<open>
  Claim C3. After \<open>c = g.copy()\<close>, no mutation of \<open>c\<close> should change the vertices or the
  edges of \<open>g\<close>, nor the other way round, in either representation. \<open>Graph1.copy\<close>
  passes \<open>self.vertices\<close> to the constructor, which keeps that very list: the copy and
  the original share their vertex list. After \<open>c.addVertex(3)\<close> the original has vertex 3
  too; after \<open>c.deleteVertex(1)\<close> the original has lost vertex 1 and kept its edge
  \<open>(1, 2)\<close>; and \<open>g.addVertex(3)\<close> shows in the copy.
\<close>

theorem Graph1_copy_shares_vertices_counterexample:
  "Graph1_view [IntList [1, 2], EdgeList [(1, 2)], Graph1Obj 0 1] 2
       = Some \<lparr>vertices = [1, 2], edges = [(1, 2)]\<rparr>
   \<and> Graph1_copy 2 [IntList [1, 2], EdgeList [(1, 2)], Graph1Obj 0 1]
       = Some (4, [IntList [1, 2], EdgeList [(1, 2)], Graph1Obj 0 1, EdgeList [(1, 2)],
                   Graph1Obj 0 3])
   \<and> Graph1_view (Graph1_mutate (AddVertex 3) 4
         [IntList [1, 2], EdgeList [(1, 2)], Graph1Obj 0 1, EdgeList [(1, 2)], Graph1Obj 0 3]) 2
       = Some \<lparr>vertices = [1, 2, 3], edges = [(1, 2)]\<rparr>
   \<and> Graph1_view (Graph1_mutate (DeleteVertex 1) 4
         [IntList [1, 2], EdgeList [(1, 2)], Graph1Obj 0 1, EdgeList [(1, 2)], Graph1Obj 0 3]) 2
       = Some \<lparr>vertices = [2], edges = [(1, 2)]\<rparr>
   \<and> Graph1_view (Graph1_mutate (AddVertex 3) 2
         [IntList [1, 2], EdgeList [(1, 2)], Graph1Obj 0 1, EdgeList [(1, 2)], Graph1Obj 0 3]) 4
       = Some \<lparr>vertices = [1, 2, 3], edges = [(1, 2)]\<rparr>"
  by (simp add: Graph1_view_def Graph1_copy_def Graph1_init_at_def at_def alloc_def
      norm_edge_def in_place1_def Graph1_write_def Graph1_addVertex_def
      Graph1_deleteVertex_at_def in_pair_def)

text \<open>
  Claim C3 as amended. \<open>Graph2.copy\<close> returns an independent graph: after
  \<open>c = g.copy()\<close>, any sequence of \<open>addVertex\<close>, \<open>addVertexCleanly\<close>, \<open>addEdge\<close>,
  \<open>deleteVertex\<close> and \<open>deleteEdge\<close> calls on \<open>c\<close> leaves the dict of \<open>g\<close> as it was, and any
  such sequence on \<open>g\<close> leaves the dict of \<open>c\<close> as it was. \<open>Graph1.copy\<close> returns a graph
  with an edge list of its own and the vertex list of \<open>g\<close> itself: after any such
  sequence on \<open>c\<close> the edge list of \<open>g\<close> is as it was, after any such sequence on \<open>g\<close> the
  edge list of \<open>c\<close> is as it was, and \<open>g\<close> and \<open>c\<close> show the same vertex list throughout.
\<close>

theorem copy_independence:
  "(Graph2_view h g = Some G \<and> Graph2_copy g h = Some (Inr c, h1) \<longrightarrow>
      (\<exists>C. Graph2_view h1 g = Some G \<and> Graph2_view h1 c = Some C
         \<and> Graph2_view (mutate_all Graph2_mutate ms c h1) g = Some G
         \<and> Graph2_view (mutate_all Graph2_mutate ms g h1) c = Some C))
   \<and> (Graph1_view h' g' = Some G' \<and> Graph1_copy g' h' = Some (c', h1') \<longrightarrow>
        Graph1_view h1' g' = Some G'
        \<and> Graph1_view h1' c' = Some \<lparr>vertices = vertices G', edges = map norm_edge (edges G')\<rparr>
        \<and> (\<exists>vs es. Graph1_view (mutate_all Graph1_mutate ms c' h1') g'
                       = Some \<lparr>vertices = vs, edges = edges G'\<rparr>
               \<and> Graph1_view (mutate_all Graph1_mutate ms c' h1') c'
                       = Some \<lparr>vertices = vs, edges = es\<rparr>)
        \<and> (\<exists>vs es. Graph1_view (mutate_all Graph1_mutate ms g' h1') c'
                       = Some \<lparr>vertices = vs, edges = map norm_edge (edges G')\<rparr>
               \<and> Graph1_view (mutate_all Graph1_mutate ms g' h1') g'
                       = Some \<lparr>vertices = vs, edges = es\<rparr>))"
proof -
  have two: "\<exists>C. Graph2_view h1 g = Some G \<and> Graph2_view h1 c = Some C
         \<and> Graph2_view (mutate_all Graph2_mutate ms c h1) g = Some G
         \<and> Graph2_view (mutate_all Graph2_mutate ms g h1) c = Some C"
    if a: "Graph2_view h g = Some G" "Graph2_copy g h = Some (Inr c, h1)"
  proof -
    from Graph2_copy_sep2 [OF a] obtain C :: Graph2 where
      s1: "sep2 h1 g c (graph G)" and s2: "sep2 h1 c g (graph C)" by blast
    from sep2_view [OF s1] sep2_view [OF s2]
      sep2_view [OF Graph2_mutate_all_sep2 [OF s1, of ms]]
      sep2_view [OF Graph2_mutate_all_sep2 [OF s2, of ms]]
    show ?thesis by auto
  qed
  have one: "Graph1_view h1' g' = Some G'
        \<and> Graph1_view h1' c' = Some \<lparr>vertices = vertices G', edges = map norm_edge (edges G')\<rparr>
        \<and> (\<exists>vs es. Graph1_view (mutate_all Graph1_mutate ms c' h1') g'
                       = Some \<lparr>vertices = vs, edges = edges G'\<rparr>
               \<and> Graph1_view (mutate_all Graph1_mutate ms c' h1') c'
                       = Some \<lparr>vertices = vs, edges = es\<rparr>)
        \<and> (\<exists>vs es. Graph1_view (mutate_all Graph1_mutate ms g' h1') c'
                       = Some \<lparr>vertices = vs, edges = map norm_edge (edges G')\<rparr>
               \<and> Graph1_view (mutate_all Graph1_mutate ms g' h1') g'
                       = Some \<lparr>vertices = vs, edges = es\<rparr>)"
    if a: "Graph1_view h' g' = Some G'" "Graph1_copy g' h' = Some (c', h1')"
  proof -
    note s1 = Graph1_copy_sep1(1) [OF a] and s2 = Graph1_copy_sep1(2) [OF a]
    from sep1_view [OF s1] sep1_view [OF s2]
    obtain vs where v1: "Graph1_view h1' g' = Some \<lparr>vertices = vs, edges = edges G'\<rparr>"
      and v2: "Graph1_view h1' c' = Some \<lparr>vertices = vs, edges = map norm_edge (edges G')\<rparr>"
      by auto
    from a(1) obtain v e where
      g: "at h' g' = Some (Graph1Obj v e)" and v: "at h' v = Some (IntList (vertices G'))"
      by (auto simp: Graph1_view_def split: option.splits pyobj.splits)
    have "at h1' v = Some (IntList (vertices G'))"
      using a(2) g v at_Some_less [OF v]
      by (auto simp: Graph1_copy_def Graph1_init_at_def alloc_def at_def nth_append
          split: option.splits pyobj.splits)
    moreover have "at h1' g' = Some (Graph1Obj v e)"
      using a(2) g at_Some_less [OF g]
      by (auto simp: Graph1_copy_def Graph1_init_at_def alloc_def at_def nth_append
          split: option.splits pyobj.splits)
    ultimately have "vs = vertices G'"
      using v1 by (auto simp: Graph1_view_def split: option.splits pyobj.splits)
    with v1 v2 have "Graph1_view h1' g' = Some G'"
      "Graph1_view h1' c' = Some \<lparr>vertices = vertices G', edges = map norm_edge (edges G')\<rparr>"
      by simp_all
    then show ?thesis
      using sep1_view [OF Graph1_mutate_all_sep1 [OF s1, of ms]]
        sep1_view [OF Graph1_mutate_all_sep1 [OF s2, of ms]]
      by blast
  qed
  from one two show ?thesis by blast
qed

theorem copy_independence_witness:
  "Graph2_view [AdjDict [(1, [2]), (2, [1])], Graph2Obj 0] 1 = Some \<lparr>graph = [(1, [2]), (2, [1])]\<rparr>
   \<and> Graph2_copy 1 [AdjDict [(1, [2]), (2, [1])], Graph2Obj 0]
       = Some (Inr 5, [AdjDict [(1, [2]), (2, [1])], Graph2Obj 0, IntList [1, 2],
                       EdgeList [(1, 2)], AdjDict [(1, [2]), (2, [1])], Graph2Obj 4])
   \<and> Graph2_view
         (mutate_all Graph2_mutate [AddVertex 3, AddEdge 1 3, DeleteVertex 2, DeleteEdge 1 3] 5
            [AdjDict [(1, [2]), (2, [1])], Graph2Obj 0, IntList [1, 2],
             EdgeList [(1, 2)], AdjDict [(1, [2]), (2, [1])], Graph2Obj 4]) 1
       = Some \<lparr>graph = [(1, [2]), (2, [1])]\<rparr>
   \<and> Graph2_view
         (mutate_all Graph2_mutate [AddVertex 3, AddEdge 1 3, DeleteVertex 2, DeleteEdge 1 3] 1
            [AdjDict [(1, [2]), (2, [1])], Graph2Obj 0, IntList [1, 2],
             EdgeList [(1, 2)], AdjDict [(1, [2]), (2, [1])], Graph2Obj 4]) 5
       = Some \<lparr>graph = [(1, [2]), (2, [1])]\<rparr>
   \<and> Graph1_view [IntList [1, 2], EdgeList [(1, 2)], Graph1Obj 0 1] 2
       = Some \<lparr>vertices = [1, 2], edges = [(1, 2)]\<rparr>
   \<and> Graph1_copy 2 [IntList [1, 2], EdgeList [(1, 2)], Graph1Obj 0 1]
       = Some (4, [IntList [1, 2], EdgeList [(1, 2)], Graph1Obj 0 1, EdgeList [(1, 2)],
                   Graph1Obj 0 3])
   \<and> map_option edges (Graph1_view
         (mutate_all Graph1_mutate [AddVertex 3, AddEdge 1 3, DeleteVertex 2, DeleteEdge 1 3] 4
            [IntList [1, 2], EdgeList [(1, 2)], Graph1Obj 0 1, EdgeList [(1, 2)],
             Graph1Obj 0 3]) 2)
       = Some [(1, 2)]
   \<and> map_option edges (Graph1_view
         (mutate_all Graph1_mutate [AddVertex 3, AddEdge 1 3, DeleteVertex 2, DeleteEdge 1 3] 2
            [IntList [1, 2], EdgeList [(1, 2)], Graph1Obj 0 1, EdgeList [(1, 2)],
             Graph1Obj 0 3]) 4)
       = Some [(1, 2)]"
proof -
  let ?h = "[AdjDict [(1, [2]), (2, [1])], Graph2Obj 0]"
  let ?h1 = "[AdjDict [(1, [2]), (2, [1])], Graph2Obj 0, IntList [1, 2],
              EdgeList [(1, 2)], AdjDict [(1, [2]), (2, [1])], Graph2Obj 4]"
  let ?k = "[IntList [1, 2], EdgeList [(1, 2)], Graph1Obj 0 1]"
  let ?k1 = "[IntList [1, 2], EdgeList [(1, 2)], Graph1Obj 0 1, EdgeList [(1, 2)], Graph1Obj 0 3]"
  let ?ms = "[AddVertex 3, AddEdge 1 3, DeleteVertex 2, DeleteEdge 1 3]"
  have a: "Graph2_view ?h 1 = Some \<lparr>graph = [(1, [2]), (2, [1])]\<rparr>"
    by (simp add: Graph2_view_def at_def)
  have b: "Graph2_copy 1 ?h = Some (Inr 5, ?h1)"
    by (simp add: Graph2_copy_def Graph2_view_def at_def alloc_def Graph2_vertices_def
        Graph2_edges_def Graph2_init_at_def Graph2_init_def dict_of_def dict_append_def)
  have c: "Graph1_view ?k 2 = Some \<lparr>vertices = [1, 2], edges = [(1, 2)]\<rparr>"
    by (simp add: Graph1_view_def at_def)
  have d: "Graph1_copy 2 ?k = Some (4, ?k1)"
    by (simp add: Graph1_copy_def Graph1_init_at_def at_def alloc_def norm_edge_def)
  have e: "Graph2_view ?h1 5 = Some \<lparr>graph = [(1, [2]), (2, [1])]\<rparr>"
    by (simp add: Graph2_view_def at_def)
  show ?thesis
    using copy_independence [of ?h 1 "\<lparr>graph = [(1, [2]), (2, [1])]\<rparr>" 5 ?h1 ?ms
        ?k 2 "\<lparr>vertices = [1, 2], edges = [(1, 2)]\<rparr>" 4 ?k1] a b c d e
    by (auto simp: norm_edge_def)
qed

end
